theory Spec2Isabelle
  imports Main
begin

section \<open>JavaScript strings and the three regular expressions\<close>

text \<open>
  A JavaScript string is modelled as a \<^typ>\<open>string\<close>, one \<^typ>\<open>char\<close> per code unit
  (code units below 256). \<open>is_space\<close> is the class \<open>\s\<close> of the regular expressions
  and the set that \<open>trim()\<close> strips, on that range: tab, line feed, vertical tab, form
  feed, carriage return, space and the no-break space. \<open>is_line_terminator\<close> is what
  the dot of a regular expression does not match.
\<close>

definition is_space :: "char \<Rightarrow> bool" where
  "is_space c = (c \<in> set [CHR 0x09, CHR 0x0A, CHR 0x0B, CHR 0x0C, CHR 0x0D, CHR 0x20, CHR 0xA0])"

definition is_line_terminator :: "char \<Rightarrow> bool" where
  "is_line_terminator c = (c \<in> set [CHR 0x0A, CHR 0x0D])"

definition is_digit :: "char \<Rightarrow> bool" where
  "is_digit c = (c \<in> set ''0123456789'')"

definition lower_char :: "char \<Rightarrow> char" where
  "lower_char c =
     (case map_of (zip ''ABCDEFGHIJKLMNOPQRSTUVWXYZ'' ''abcdefghijklmnopqrstuvwxyz'') c of
        Some l \<Rightarrow> l
      | None \<Rightarrow> c)"

definition starts_with :: "string \<Rightarrow> string \<Rightarrow> bool" where
  "starts_with p s = (take (length p) s = p)"

text \<open>The flag \<open>i\<close>: the pattern's letters match either case.\<close>

definition starts_with_ci :: "string \<Rightarrow> string \<Rightarrow> bool" where
  "starts_with_ci p s = (map lower_char (take (length p) s) = map lower_char p)"

text \<open>\<open>String.prototype.includes\<close>: some suffix of the text starts with the pattern.\<close>

fun js_includes :: "string \<Rightarrow> string \<Rightarrow> bool" where
  "js_includes [] p = (p = [])"
| "js_includes (c # cs) p = (starts_with p (c # cs) \<or> js_includes cs p)"

text \<open>\<open>String.prototype.trim\<close>.\<close>

definition trim :: "string \<Rightarrow> string" where
  "trim s = rev (dropWhile is_space (rev (dropWhile is_space s)))"

text \<open>\<open>Array.prototype.join\<close>.\<close>

fun join :: "string \<Rightarrow> string list \<Rightarrow> string" where
  "join sep [] = []"
| "join sep [x] = x"
| "join sep (x # y # ys) = x @ sep @ join sep (y # ys)"

text \<open>
  \<open>String.prototype.match\<close> with a regular expression that has no flag \<open>g\<close>: the
  match is tried at every start position from the left, the end of the text included,
  and the first position where it succeeds gives the result.
\<close>

fun first_match :: "(string \<Rightarrow> 'a option) \<Rightarrow> string \<Rightarrow> 'a option" where
  "first_match m [] = m []"
| "first_match m (c # cs) = (case m (c # cs) of Some r \<Rightarrow> Some r | None \<Rightarrow> first_match m cs)"

text \<open>
  \<^verbatim>\<open>/https:\/\/github\.com\/[^\s]+/\<close> at one start position: the literal prefix, then
  the longest non-empty run of characters that are not white space.
\<close>

definition url_prefix :: string where
  "url_prefix = ''https://github.com/''"

definition match_url_at :: "string \<Rightarrow> string option" where
  "match_url_at s =
     (if starts_with url_prefix s
      then (let run = takeWhile (\<lambda>c. \<not> is_space c) (drop (length url_prefix) s)
            in if run = [] then None else Some (url_prefix @ run))
      else None)"

text \<open>
  \<^verbatim>\<open>/github\.com\/([^\/]+)\/([^\/]+)\/pull\/(\d+)/\<close> at one start position. Each group
  \<^verbatim>\<open>[^\/]+\<close> must be followed by a slash, so it is the whole run of characters up to
  the next slash: a shorter choice would be followed by a character that is not a slash.
  The digits are the longest run, being last in the pattern.
\<close>

definition not_slash :: "char \<Rightarrow> bool" where
  "not_slash c = (c \<noteq> CHR ''/'')"

definition match_pr_at :: "string \<Rightarrow> (string \<times> string \<times> string) option" where
  "match_pr_at s =
     (if starts_with ''github.com/'' s
      then (let r1 = drop (length ''github.com/'') s;
                ow = takeWhile not_slash r1;
                r2 = drop (length ow) r1
            in if ow \<noteq> [] \<and> starts_with ''/'' r2
               then (let r3 = drop 1 r2;
                         rp = takeWhile not_slash r3;
                         r4 = drop (length rp) r3
                     in if rp \<noteq> [] \<and> starts_with ''/pull/'' r4
                        then (let num = takeWhile is_digit (drop (length ''/pull/'') r4)
                              in if num \<noteq> [] then Some (ow, rp, num) else None)
                        else None)
               else None)
      else None)"

text \<open>
  \<^verbatim>\<open>/@AsanaPRBot\s*(.*)/i\<close> at one start position: the marker in any case, the
  longest run of white space, and the group is the rest of that line. The match
  cannot fail after the marker, so no shorter run of white space is ever tried.
\<close>

definition mention_marker :: string where
  "mention_marker = ''@AsanaPRBot''"

definition match_mention_at :: "string \<Rightarrow> string option" where
  "match_mention_at s =
     (if starts_with_ci mention_marker s
      then Some (takeWhile (\<lambda>c. \<not> is_line_terminator c)
                   (dropWhile is_space (drop (length mention_marker) s)))
      else None)"

section \<open>Truthiness\<close>

text \<open>
  The values the code tests with \<open>!\<close> and \<open>?:\<close> are strings, \<open>null\<close> and
  \<open>undefined\<close>: a string is truthy when it is not empty, the other two are falsy.
\<close>

datatype js_val = Undefined | Null | Str string

fun truthy :: "js_val \<Rightarrow> bool" where
  "truthy Undefined = False"
| "truthy Null = False"
| "truthy (Str s) = (s \<noteq> [])"

section \<open>Target resolution (fetch\_prs\_final\_asana.js)\<close>

record parsed_url =
  owner :: js_val
  repo :: js_val
  prNumber :: js_val

definition parseGithubUrl :: "string \<Rightarrow> parsed_url" where
  "parseGithubUrl url =
     (case first_match match_pr_at url of
        Some (ow, rp, num) \<Rightarrow> \<lparr>owner = Str ow, repo = Str rp, prNumber = Str num\<rparr>
      | None \<Rightarrow> \<lparr>owner = Undefined, repo = Undefined, prNumber = Undefined\<rparr>)"

section \<open>External services and effects\<close>

text \<open>
  Every call to GitHub, OpenAI, Asana or Redis is an \<open>action\<close> of the trace; what the
  service answers comes from a record of \<open>services\<close>, each answer an error (the promise
  rejects, or the code that unpacks the answer throws) or a value. Console output is
  not part of the trace.
\<close>

datatype js_error = Error string

datatype action =
    GetAuthenticated
  | PullsGet string string string
  | ListComments string string string
  | GetDiff string string string
  | ChatCompletion string string
  | CreateComment string string string string
  | GetStory string
  | GetTask string
  | ListTags string
  | CreateTag string string
  | AttachTag string string
  | SIsMember string string
  | SAdd string string

record gh_user =
  login :: string
  user_type :: string

record gh_comment =
  comment_user :: gh_user
  comment_body :: string

text \<open>
  Of a pull request, the fields the prompt reads; labels, assignees and requested
  reviewers are given by the one field the code maps them to (\<open>name\<close>, \<open>login\<close>).
\<close>

record pull_request =
  pr_number :: nat
  pr_title :: string
  pr_body :: js_val
  pr_labels :: "string list"
  pr_assignees :: "string list"
  pr_requested_reviewers :: "string list"

record asana_tag =
  tag_gid :: string
  tag_name :: string

record task_details =
  task_tags :: "asana_tag list"
  task_workspace :: string
  task_notes :: string

record story_details =
  story_type :: string
  story_text :: string
  story_target :: string

record services =
  users_getAuthenticated :: "js_error + string"
  pulls_get :: "string \<Rightarrow> string \<Rightarrow> string \<Rightarrow> js_error + pull_request"
  issues_listComments :: "string \<Rightarrow> string \<Rightarrow> string \<Rightarrow> js_error + gh_comment list"
  pulls_diff :: "string \<Rightarrow> string \<Rightarrow> string \<Rightarrow> js_error + string"
  chat_completions_create :: "string \<Rightarrow> string \<Rightarrow> js_error + string"
  issues_createComment :: "string \<Rightarrow> string \<Rightarrow> string \<Rightarrow> string \<Rightarrow> js_error + unit"
  asana_story :: "string \<Rightarrow> js_error + story_details"
  asana_task :: "string \<Rightarrow> js_error + task_details"
  asana_workspace_tags :: "string \<Rightarrow> js_error + asana_tag list"
  asana_create_tag :: "string \<Rightarrow> string \<Rightarrow> js_error + asana_tag"
  asana_add_tag :: "string \<Rightarrow> string \<Rightarrow> js_error + unit"
  redis_sismember_error :: "string \<Rightarrow> string \<Rightarrow> js_error option"
  redis_sadd_error :: "string \<Rightarrow> string \<Rightarrow> js_error option"

text \<open>
  An asynchronous computation: the trace of the calls it made, and an error (it threw)
  or its value. \<open>io_catch\<close> is \<^verbatim>\<open>try { ... } catch (error) { console.error(...) }\<close>:
  the calls made so far stay made, the error is dropped.
\<close>

type_synonym 'a io = "action list \<times> (js_error + 'a)"

definition io_return :: "'a \<Rightarrow> 'a io" where
  "io_return x = ([], Inr x)"

definition io_throw :: "js_error \<Rightarrow> 'a io" where
  "io_throw e = ([], Inl e)"

definition io_call :: "action \<Rightarrow> js_error + 'a \<Rightarrow> 'a io" where
  "io_call a r = ([a], r)"

definition io_bind :: "'a io \<Rightarrow> ('a \<Rightarrow> 'b io) \<Rightarrow> 'b io" where
  "io_bind m f =
     (case m of
        (t, Inl e) \<Rightarrow> (t, Inl e)
      | (t, Inr x) \<Rightarrow> (case f x of (t', r) \<Rightarrow> (t @ t', r)))"

definition io_catch :: "unit io \<Rightarrow> unit io" where
  "io_catch m = (fst m, Inr ())"

section \<open>Composing the prompt\<close>

text \<open>
  A number in a template literal: its decimal digits. (A pull request number is a
  natural number far below \<open>2^53\<close>, the range in which a JavaScript number prints
  all the digits of the integer.)
\<close>

fun dec :: "nat \<Rightarrow> string" where
  "dec n = (if n < 10 then [''0123456789'' ! n]
            else dec (n div 10) @ [''0123456789'' ! (n mod 10)])"

declare dec.simps [simp del]

text \<open>A value in a template literal, and \<open>a || b\<close> on strings.\<close>

fun str_of :: "js_val \<Rightarrow> string" where
  "str_of (Str s) = s"
| "str_of Null = ''null''"
| "str_of Undefined = ''undefined''"

definition or_else :: "js_val \<Rightarrow> string \<Rightarrow> string" where
  "or_else v d = (if truthy v then str_of v else d)"

definition summary :: "pull_request \<Rightarrow> string" where
  "summary pr =
     ''### Pull Request #'' @ dec (pr_number pr) @ '': '' @ pr_title pr @
     ''\<newline>\<newline>**Description:**\<newline>'' @
     or_else (pr_body pr) ''No description provided.'' @ ''\<newline>\<newline>''"

definition diffContent :: "string \<Rightarrow> string" where
  "diffContent diff = ''**Diff:**\<newline>```diff\<newline>'' @ diff @ ''\<newline>```\<newline>\<newline>''"

definition contextSection :: "pull_request \<Rightarrow> string" where
  "contextSection pr =
     ''**Labels:** '' @ or_else (Str (join '', '' (pr_labels pr))) ''None'' @
     ''\<newline>**Assignees:** '' @ or_else (Str (join '', '' (pr_assignees pr))) ''None'' @
     ''\<newline>**Reviewers:** '' @ or_else (Str (join '', '' (pr_requested_reviewers pr))) ''None'' @
     ''\<newline>\<newline>''"

definition comment_line :: "gh_comment \<Rightarrow> string" where
  "comment_line c = ''- **'' @ login (comment_user c) @ '':** '' @ comment_body c"

text \<open>
  The comments section of unnamed/part\_001 (lines 261 to 275): the comments are
  filtered first, by author type and by the login of the authenticated user.
\<close>

definition humanComments :: "string \<Rightarrow> gh_comment list \<Rightarrow> gh_comment list" where
  "humanComments botUsername comments =
     filter (\<lambda>c. user_type (comment_user c) \<noteq> ''Bot'' \<and> login (comment_user c) \<noteq> botUsername)
       comments"

definition commentsSection_of :: "gh_comment list \<Rightarrow> string" where
  "commentsSection_of cs =
     (let commentsList = join ''\<newline>'' (map comment_line cs)
      in if truthy (Str commentsList)
         then ''**Comments:**\<newline>'' @ commentsList @ ''\<newline>\<newline>''
         else [])"

definition commentsSection_part001 :: "string \<Rightarrow> gh_comment list \<Rightarrow> string" where
  "commentsSection_part001 botUsername comments =
     commentsSection_of (humanComments botUsername comments)"

text \<open>
  The comments section of fetch\_prs\_final\_asana.js (lines 265 to 275) and of
  asana\_ai\_reviewer.js (lines 167 to 177), the same text in both files: every
  fetched comment is rendered ("Include all comments without filtering out bot
  comments").
\<close>

definition commentsSection_final :: "gh_comment list \<Rightarrow> string" where
  "commentsSection_final comments = commentsSection_of comments"

definition asanaContext :: "js_val \<Rightarrow> string" where
  "asanaContext context =
     (if truthy context
      then ''**Additional Context from Asana:**\<newline>'' @ str_of context @ ''\<newline>\<newline>''
      else [])"

definition prompt_part001 :: "string \<Rightarrow> pull_request \<Rightarrow> gh_comment list \<Rightarrow> string \<Rightarrow> js_val \<Rightarrow> string" where
  "prompt_part001 botUsername pr comments diff context =
     summary pr @ diffContent diff @ contextSection pr @
     commentsSection_part001 botUsername comments @ asanaContext context @
     ''\<newline>---\<newline>\<newline>''"

definition finalPrompt_part001 :: "string \<Rightarrow> string" where
  "finalPrompt_part001 prompt =
     ''I have the following pull request that I'd like feedback on. Please review the information and provide your insights.\<newline>\<newline>'' @
     prompt @
     ''\<newline>Please focus on any potential issues, improvements, or suggestions you might have. Be succinct and clear in your feedback.\<newline>'' @
     ''If you have any questions or need more information, feel free to ask. If the PR is ready to merge, please indicate that as well.\<newline>'' @
     ''If you see that the PR addresses disparate issues that are best addressed in separate, nudge the author to split the PR into smaller, more focused PRs, using Graphite.\<newline>''"

definition prompt_final :: "pull_request \<Rightarrow> gh_comment list \<Rightarrow> string \<Rightarrow> js_val \<Rightarrow> string" where
  "prompt_final pr comments diff context =
     summary pr @ diffContent diff @ contextSection pr @
     commentsSection_final comments @ asanaContext context @
     ''\<newline>---\<newline>\<newline>''"

definition constrained_prompt :: "string \<Rightarrow> string \<Rightarrow> string" where
  "constrained_prompt instruction prompt =
     ''As an expert code reviewer, please focus on the following instruction while reviewing the pull request:\<newline>\<newline>'' @
     [CHR 0x22] @ instruction @ [CHR 0x22] @
     ''\<newline>\<newline>Here is the PR information:\<newline>\<newline>'' @ prompt @
     ''\<newline>\<newline>Provide a concise and specific response addressing the instruction above. Avoid unnecessary information or general feedback. Ensure accuracy and refrain from including any information not present in the PR data.\<newline>\<newline>''"

definition unconstrained_prompt :: "string \<Rightarrow> string" where
  "unconstrained_prompt prompt =
     ''As an expert code reviewer, please review the following pull request:\<newline>\<newline>'' @ prompt @
     ''\<newline>\<newline>Please focus on potential issues, improvements, or suggestions. Be succinct and clear in your feedback. If the PR is ready to merge, please indicate that as well. If you notice the PR addresses disparate issues better handled separately, suggest splitting it into smaller, focused PRs.\<newline>\<newline>'' @
     ''Provide a concise response without unnecessary elaboration or hallucinations.\<newline>\<newline>''"

definition finalPrompt_final :: "js_val \<Rightarrow> string \<Rightarrow> string" where
  "finalPrompt_final context prompt =
     (if truthy context then constrained_prompt (str_of context) prompt
      else unconstrained_prompt prompt)"

text \<open>
  The introduction line. In the source (line 325) it begins with the four code units
  U+00F0, U+0178, U+2018 and U+2039, which are the bytes F0 9F 91 8B in Windows-1252
  (the UTF-8 bytes of a waving hand, read in that encoding). Three of them are
  above 255; each is given here by its Windows-1252 byte.
\<close>

definition botIntroduction :: string where
  "botIntroduction =
     [CHR 0xF0, CHR 0x9F, CHR 0x91, CHR 0x8B] @
     '' Hi, I'm **AsanaPRBot**, your assistant for concise PR reviews.''"

section \<open>The pipeline of unnamed/part\_001: identity witness and tag witness\<close>

definition getAsanaTaskDetails :: "services \<Rightarrow> string \<Rightarrow> task_details io" where
  "getAsanaTaskDetails sv taskId = io_call (GetTask taskId) (asana_task sv taskId)"

definition getAsanaStoryDetails :: "services \<Rightarrow> string \<Rightarrow> story_details io" where
  "getAsanaStoryDetails sv storyId = io_call (GetStory storyId) (asana_story sv storyId)"

definition extractPrUrlFromTask :: "task_details \<Rightarrow> js_val" where
  "extractPrUrlFromTask taskDetails =
     (case first_match match_url_at (task_notes taskDetails) of
        Some url \<Rightarrow> Str url
      | None \<Rightarrow> Null)"

definition processPullRequest_part001 ::
    "services \<Rightarrow> string \<Rightarrow> string \<Rightarrow> string \<Rightarrow> js_val \<Rightarrow> unit io" where
  "processPullRequest_part001 sv prNum ow rp context =
     io_catch
      (io_bind (io_call GetAuthenticated (users_getAuthenticated sv)) (\<lambda>botUsername.
       io_bind (io_call (PullsGet ow rp prNum) (pulls_get sv ow rp prNum)) (\<lambda>pr.
       io_bind (io_call (ListComments ow rp prNum) (issues_listComments sv ow rp prNum)) (\<lambda>comments.
       if list_ex (\<lambda>c. login (comment_user c) = botUsername) comments
       then io_return ()
       else
         io_bind (io_call (GetDiff ow rp prNum) (pulls_diff sv ow rp prNum)) (\<lambda>diff.
         let finalPrompt = finalPrompt_part001 (prompt_part001 botUsername pr comments diff context)
         in io_bind (io_call (ChatCompletion ''o1-preview'' finalPrompt)
                       (chat_completions_create sv ''o1-preview'' finalPrompt)) (\<lambda>aiResponse.
            io_call (CreateComment ow rp prNum aiResponse)
              (issues_createComment sv ow rp prNum aiResponse)))))))"

definition findTagInWorkspace :: "services \<Rightarrow> string \<Rightarrow> string \<Rightarrow> asana_tag option io" where
  "findTagInWorkspace sv workspaceId tagName =
     io_bind (io_call (ListTags workspaceId) (asana_workspace_tags sv workspaceId)) (\<lambda>tags.
     io_return (find (\<lambda>t. tag_name t = tagName) tags))"

definition createTagInWorkspace :: "services \<Rightarrow> string \<Rightarrow> string \<Rightarrow> asana_tag io" where
  "createTagInWorkspace sv workspaceId tagName =
     io_call (CreateTag workspaceId tagName) (asana_create_tag sv workspaceId tagName)"

definition attachTagToTask :: "services \<Rightarrow> string \<Rightarrow> string \<Rightarrow> unit io" where
  "attachTagToTask sv taskId tagId = io_call (AttachTag taskId tagId) (asana_add_tag sv taskId tagId)"

definition addTagToTask :: "services \<Rightarrow> string \<Rightarrow> string \<Rightarrow> unit io" where
  "addTagToTask sv taskId tagName =
     io_bind (getAsanaTaskDetails sv taskId) (\<lambda>taskDetails.
     let workspaceId = task_workspace taskDetails in
     io_bind (findTagInWorkspace sv workspaceId tagName) (\<lambda>found.
     io_bind (case found of
                Some tag \<Rightarrow> io_return tag
              | None \<Rightarrow> createTagInWorkspace sv workspaceId tagName) (\<lambda>tag.
     attachTagToTask sv taskId (tag_gid tag))))"

definition processedTag :: string where
  "processedTag = ''AsanaAI Processed''"

definition processAsanaTask_part001 :: "services \<Rightarrow> string \<Rightarrow> js_val \<Rightarrow> unit io" where
  "processAsanaTask_part001 sv taskId context =
     io_catch
      (io_bind (getAsanaTaskDetails sv taskId) (\<lambda>taskDetails.
       if processedTag \<in> set (map tag_name (task_tags taskDetails))
       then io_return ()
       else
         let prUrl = extractPrUrlFromTask taskDetails in
         if truthy prUrl
         then
           (let p = parseGithubUrl (str_of prUrl) in
            if truthy (owner p) \<and> truthy (repo p) \<and> truthy (prNumber p)
            then
              io_bind (processPullRequest_part001 sv (str_of (prNumber p)) (str_of (owner p))
                         (str_of (repo p)) context) (\<lambda>_.
              addTagToTask sv taskId processedTag)
            else io_return ())
         else io_return ()))"


section \<open>The pipeline of fetch\_prs\_final\_asana.js: instruction and ledger\<close>

definition processPullRequest_final ::
    "services \<Rightarrow> string \<Rightarrow> string \<Rightarrow> string \<Rightarrow> js_val \<Rightarrow> unit io" where
  "processPullRequest_final sv prNum ow rp context =
     io_catch
      (io_bind (io_call (PullsGet ow rp prNum) (pulls_get sv ow rp prNum)) (\<lambda>pr.
       io_bind (io_call (ListComments ow rp prNum) (issues_listComments sv ow rp prNum)) (\<lambda>comments.
       io_bind (io_call (GetDiff ow rp prNum) (pulls_diff sv ow rp prNum)) (\<lambda>diff.
       let finalPrompt = finalPrompt_final context (prompt_final pr comments diff context)
       in io_bind (io_call (ChatCompletion ''o1-preview'' finalPrompt)
                     (chat_completions_create sv ''o1-preview'' finalPrompt)) (\<lambda>aiResponse.
          let body = botIntroduction @ ''\<newline>\<newline>'' @ aiResponse
          in io_call (CreateComment ow rp prNum body)
               (issues_createComment sv ow rp prNum body))))))"

definition processAsanaTask_final :: "services \<Rightarrow> string \<Rightarrow> js_val \<Rightarrow> unit io" where
  "processAsanaTask_final sv taskId context =
     io_catch
      (io_bind (getAsanaTaskDetails sv taskId) (\<lambda>taskDetails.
       let prUrl = extractPrUrlFromTask taskDetails in
       if truthy prUrl
       then
         (let p = parseGithubUrl (str_of prUrl) in
          if truthy (owner p) \<and> truthy (repo p) \<and> truthy (prNumber p)
          then processPullRequest_final sv (str_of (prNumber p)) (str_of (owner p))
                 (str_of (repo p)) context
          else io_return ())
       else io_return ()))"

text \<open>
  The instruction of a comment (lines 110 to 112): the group of the first match,
  trimmed, or \<open>null\<close> when the expression does not match.
\<close>

definition extract_instruction :: "string \<Rightarrow> js_val" where
  "extract_instruction commentText =
     (case first_match match_mention_at commentText of
        Some g \<Rightarrow> Str (trim g)
      | None \<Rightarrow> Null)"

definition processAsanaStory_final :: "services \<Rightarrow> string \<Rightarrow> unit io" where
  "processAsanaStory_final sv storyId =
     io_catch
      (io_bind (getAsanaStoryDetails sv storyId) (\<lambda>storyDetails.
       if story_type storyDetails \<noteq> ''comment''
       then io_return ()
       else
         let commentText = story_text storyDetails in
         if js_includes commentText mention_marker
         then
           (let instruction = extract_instruction commentText;
                taskId = story_target storyDetails
            in io_bind (getAsanaTaskDetails sv taskId) (\<lambda>taskDetails.
               processAsanaTask_final sv taskId instruction))
         else io_return ()))"

section \<open>The Asana webhook routes\<close>

text \<open>
  Of an event that has a resource, the fields the route reads: \<open>resource.gid\<close>,
  \<open>resource.resource_type\<close>, \<open>resource.resource_subtype\<close> and \<open>action\<close> (a field
  that is missing compares unequal to every literal, as the empty string does here; a
  missing \<open>gid\<close> prints as \<open>undefined\<close>).

  The routes are open to any sender, so \<open>body.events\<close> can be any JSON value: absent
  or otherwise falsy (\<open>NoEvents\<close>); an array (\<open>EventList\<close>), each item an event with a
  resource or, \<open>None\<close>, an item without one (a record with no \<open>resource\<close>, \<open>null\<close>, a
  number); or a truthy value that is not an array and whose \<open>length\<close> is not 0
  (\<open>NotAnArray\<close>), on which the loop throws before its first call. Reading
  \<open>event.resource.gid\<close> or \<open>resource.resource_type\<close> of an item without a resource
  throws a \<open>TypeError\<close>; both routes read them outside every \<open>try\<close>.
\<close>

record asana_event =
  resource_gid :: string
  resource_type :: string
  resource_subtype :: string
  event_action :: string

datatype events_field = NoEvents | NotAnArray | EventList "asana_event option list"

record asana_request =
  x_hook_secret :: js_val
  body_events :: events_field

record response =
  status :: nat
  response_headers :: "(string \<times> string) list"
  response_body :: string

definition send :: "nat \<Rightarrow> string \<Rightarrow> response" where
  "send code text = \<lparr>status = code, response_headers = [], response_body = text\<rparr>"




text \<open>
  The route of fetch\_prs\_final\_asana.js (lines 31 to 86) reads and writes the Redis
  set \<open>processedEvents\<close>. A computation on that set takes its members and gives back
  the trace, the members afterwards, and an error or a value. A Redis command that
  fails rejects its promise and leaves the set as it was.
\<close>

type_synonym 'a sio = "string set \<Rightarrow> action list \<times> string set \<times> (js_error + 'a)"

definition sio_return :: "'a \<Rightarrow> 'a sio" where
  "sio_return x = (\<lambda>store. ([], store, Inr x))"

definition sio_lift :: "'a io \<Rightarrow> 'a sio" where
  "sio_lift m = (\<lambda>store. (fst m, store, snd m))"

definition sio_bind :: "'a sio \<Rightarrow> ('a \<Rightarrow> 'b sio) \<Rightarrow> 'b sio" where
  "sio_bind m f =
     (\<lambda>store. case m store of
        (t, store', Inl e) \<Rightarrow> (t, store', Inl e)
      | (t, store', Inr x) \<Rightarrow> (case f x store' of (t', store'', r) \<Rightarrow> (t @ t', store'', r)))"

definition redis_sismember :: "services \<Rightarrow> string \<Rightarrow> string \<Rightarrow> bool sio" where
  "redis_sismember sv name member =
     (\<lambda>store. ([SIsMember name member], store,
        (case redis_sismember_error sv name member of
           Some e \<Rightarrow> Inl e
         | None \<Rightarrow> Inr (member \<in> store))))"

definition redis_sadd :: "services \<Rightarrow> string \<Rightarrow> string \<Rightarrow> unit sio" where
  "redis_sadd sv name member =
     (\<lambda>store. case redis_sadd_error sv name member of
        Some e \<Rightarrow> ([SAdd name member], store, Inl e)
      | None \<Rightarrow> ([SAdd name member], insert member store, Inr ()))"

definition process_event_final :: "services \<Rightarrow> asana_event \<Rightarrow> unit sio" where
  "process_event_final sv event =
     (let eventKey = resource_gid event in
      sio_bind (redis_sismember sv ''processedEvents'' eventKey) (\<lambda>isProcessed.
      if isProcessed then sio_return ()
      else if resource_type event = ''task'' \<and> event_action event = ''added''
      then sio_bind (sio_lift (processAsanaTask_final sv (resource_gid event) Null)) (\<lambda>_.
           redis_sadd sv ''processedEvents'' eventKey)
      else if resource_type event = ''story'' \<and> event_action event = ''added'' \<and>
              resource_subtype event = ''comment_added''
      then sio_bind (sio_lift (processAsanaStory_final sv (resource_gid event))) (\<lambda>_.
           redis_sadd sv ''processedEvents'' eventKey)
      else sio_return ()))"

fun process_events_final :: "services \<Rightarrow> asana_event option list \<Rightarrow> unit sio" where
  "process_events_final sv [] = sio_return ()"
| "process_events_final sv (None # rest) = sio_lift (io_throw (Error ''TypeError''))"
| "process_events_final sv (Some event # rest) =
     sio_bind (process_event_final sv event) (\<lambda>_. process_events_final sv rest)"

definition webhook_final :: "services \<Rightarrow> asana_request \<Rightarrow> response sio" where
  "webhook_final sv req =
     (if truthy (x_hook_secret req)
      then sio_return \<lparr>status = 200,
                        response_headers = [(''X-Hook-Secret'', str_of (x_hook_secret req))],
                        response_body = []\<rparr>
      else
        (case body_events req of
           NoEvents \<Rightarrow> sio_return (send 200 ''No events to process.'')
         | NotAnArray \<Rightarrow> sio_lift (io_throw (Error ''TypeError''))
         | EventList events \<Rightarrow>
             if events = [] then sio_return (send 200 ''No events to process.'')
             else sio_bind (process_events_final sv events) (\<lambda>_.
                  sio_return (send 200 ''Events processed.''))))"

section \<open>Two deliveries of one event, interleaved\<close>

text \<open>
  The route is an \<open>async\<close> function: it runs until an \<open>await\<close>, and another
  delivery may run in between. For one event the route of fetch\_prs\_final\_asana.js
  has three awaits: \<open>redis.sismember\<close> (line 52), the processing of the task or of the
  story (lines 66 and 76), and \<open>redis.sadd\<close> (lines 69 and 79). A delivery is at one of
  them, or has finished this event; \<open>admitted\<close> records that its membership read
  answered "not a member".
\<close>

datatype phase = AtCheck | AtHandle | AtMark | Finished

record delivery =
  phase :: phase
  admitted :: bool

record shared =
  members :: "string set"
  calls :: "action list"

definition delivery_step :: "services \<Rightarrow> asana_event \<Rightarrow> delivery \<Rightarrow> shared \<Rightarrow> delivery \<times> shared" where
  "delivery_step sv event d sh =
     (let eventKey = resource_gid event in
      case phase d of
        AtCheck \<Rightarrow>
          (case redis_sismember sv ''processedEvents'' eventKey (members sh) of
             (t, store, Inl e) \<Rightarrow>
               (d\<lparr>phase := Finished\<rparr>, \<lparr>members = store, calls = calls sh @ t\<rparr>)
           | (t, store, Inr isProcessed) \<Rightarrow>
               (if isProcessed
                then (d\<lparr>phase := Finished\<rparr>, \<lparr>members = store, calls = calls sh @ t\<rparr>)
                else if (resource_type event = ''task'' \<and> event_action event = ''added'') \<or>
                        (resource_type event = ''story'' \<and> event_action event = ''added'' \<and>
                         resource_subtype event = ''comment_added'')
                then (d\<lparr>phase := AtHandle, admitted := True\<rparr>,
                      \<lparr>members = store, calls = calls sh @ t\<rparr>)
                else (d\<lparr>phase := Finished, admitted := True\<rparr>,
                      \<lparr>members = store, calls = calls sh @ t\<rparr>)))
      | AtHandle \<Rightarrow>
          (let m = (if resource_type event = ''task'' \<and> event_action event = ''added''
                    then processAsanaTask_final sv (resource_gid event) Null
                    else processAsanaStory_final sv (resource_gid event))
           in case snd m of
                Inl e \<Rightarrow> (d\<lparr>phase := Finished\<rparr>, sh\<lparr>calls := calls sh @ fst m\<rparr>)
              | Inr u \<Rightarrow> (d\<lparr>phase := AtMark\<rparr>, sh\<lparr>calls := calls sh @ fst m\<rparr>))
      | AtMark \<Rightarrow>
          (case redis_sadd sv ''processedEvents'' eventKey (members sh) of
             (t, store, r) \<Rightarrow> (d\<lparr>phase := Finished\<rparr>, \<lparr>members = store, calls = calls sh @ t\<rparr>))
      | Finished \<Rightarrow> (d, sh))"

text \<open>
  A schedule says which of the two deliveries runs to its next await: \<open>False\<close> the
  first, \<open>True\<close> the second.
\<close>

fun run_schedule ::
    "services \<Rightarrow> asana_event \<Rightarrow> bool list \<Rightarrow> delivery \<times> delivery \<times> shared \<Rightarrow> delivery \<times> delivery \<times> shared" where
  "run_schedule sv event [] c = c"
| "run_schedule sv event (b # bs) (d1, d2, sh) =
     (if b
      then (case delivery_step sv event d2 sh of (d2', sh') \<Rightarrow> run_schedule sv event bs (d1, d2', sh'))
      else (case delivery_step sv event d1 sh of (d1', sh') \<Rightarrow> run_schedule sv event bs (d1', d2, sh')))"

definition arrived :: delivery where
  "arrived = \<lparr>phase = AtCheck, admitted = False\<rparr>"

definition two_deliveries :: "services \<Rightarrow> asana_event \<Rightarrow> bool list \<Rightarrow> string set \<Rightarrow> delivery \<times> delivery \<times> shared" where
  "two_deliveries sv event schedule store =
     run_schedule sv event schedule (arrived, arrived, \<lparr>members = store, calls = []\<rparr>)"

text \<open>The events the route processes: a task added, or a comment added to a task.\<close>

definition handled :: "asana_event \<Rightarrow> bool" where
  "handled event =
     ((resource_type event = ''task'' \<and> event_action event = ''added'') \<or>
      (resource_type event = ''story'' \<and> event_action event = ''added'' \<and>
       resource_subtype event = ''comment_added''))"

section \<open>The GitHub webhook of unnamed/part\_000\<close>

text \<open>
  Of a request: the headers \<open>x-github-event\<close> and \<open>x-hub-signature-256\<close>, whether it
  carries a JSON body, the raw bytes of the body, the flag a body parser sets once it
  has read the body, and \<open>req.body\<close>. Of a payload: the fields the route reads.
  The route reads \<open>pull_request.number\<close>, \<open>repository.owner.login\<close>,
  \<open>repository.name\<close> and \<open>requested_reviewer.login\<close> in this order, outside every
  \<open>try\<close>; the number is \<open>None\<close> when the payload has no \<open>pull_request\<close>, the
  owner's login when it has no \<open>repository\<close> or the repository no \<open>owner\<close>, the
  reviewer's login when it has no \<open>requested_reviewer\<close> (a team was asked for the
  review): reading a field of an object that is not there throws a \<open>TypeError\<close>.
\<close>

record gh_payload =
  payload_action :: string
  pull_request_number :: "nat option"
  repository_owner_login :: "string option"
  repository_name :: string
  requested_reviewer_login :: "string option"

record gh_request =
  x_github_event :: js_val
  x_hub_signature_256 :: js_val
  has_json_body :: bool
  raw_body :: string
  body_read :: bool
  body :: "gh_payload option"

text \<open>
  \<open>verifySignature\<close> (lines 20 to 28). The digest is computed by Node's \<open>crypto\<close>: the
  function from key and message to the hexadecimal HMAC-SHA256 is a parameter.
\<close>

definition verifySignature ::
    "(string \<Rightarrow> string \<Rightarrow> string) \<Rightarrow> string \<Rightarrow> gh_request \<Rightarrow> string \<Rightarrow> js_error + unit" where
  "verifySignature hmac_hex secret req buf =
     (let signature = x_hub_signature_256 req;
          digest = ''sha256='' @ hmac_hex secret buf
      in if signature \<noteq> Str digest then Inl (Error ''Invalid signature'') else Inr ())"

text \<open>
  \<open>express.json(options)\<close>, the body parser of Express: a request whose body was
  already read by an earlier parser is passed on as it is; so is a request with no
  JSON body (no body, or another content type). Otherwise the parser reads the body,
  marks the request as read, calls \<open>options.verify\<close> on the raw bytes when there is
  one (an exception there ends the request with status 403), and parses the bytes
  (400 when they are not JSON). The JSON parser is a parameter; the limits on size
  and character set of the parser are left out.
\<close>

datatype middleware_result = Next gh_request | Refused nat

definition express_json ::
    "(gh_request \<Rightarrow> string \<Rightarrow> js_error + unit) option \<Rightarrow> (string \<Rightarrow> js_error + gh_payload) \<Rightarrow>
     gh_request \<Rightarrow> middleware_result" where
  "express_json verify parse req =
     (if body_read req then Next req
      else if has_json_body req
      then (case (case verify of None \<Rightarrow> Inr () | Some v \<Rightarrow> v req (raw_body req)) of
              Inl e \<Rightarrow> Refused 403
            | Inr u \<Rightarrow>
                (case parse (raw_body req) of
                   Inl e \<Rightarrow> Refused 400
                 | Inr payload \<Rightarrow> Next (req\<lparr>body_read := True, body := Some payload\<rparr>)))
      else Next req)"

text \<open>
  The route (lines 34 to 55). The reviewer is compared with a literal; the pipeline
  the route awaits is a parameter. A request whose body no parser read has the empty
  object as \<open>req.body\<close> (\<open>None\<close> here), whose \<open>action\<close> is undefined.
\<close>

definition configured_actor :: string where
  "configured_actor = ''haghdaee''"

definition webhook_github ::
    "(nat \<Rightarrow> string \<Rightarrow> string \<Rightarrow> unit io) \<Rightarrow> js_val \<Rightarrow> gh_payload option \<Rightarrow> response io" where
  "webhook_github processPullRequest event payload =
     (case payload of
        None \<Rightarrow> io_return (send 200 ''Event ignored.'')
      | Some p \<Rightarrow>
          if event = Str ''pull_request'' \<and> payload_action p = ''review_requested''
          then
            (case pull_request_number p of
               None \<Rightarrow> io_throw (Error ''TypeError'')
             | Some prNum \<Rightarrow>
                 (case repository_owner_login p of
                    None \<Rightarrow> io_throw (Error ''TypeError'')
                  | Some ow \<Rightarrow>
                      (let rp = repository_name p in
                       case requested_reviewer_login p of
                         None \<Rightarrow> io_throw (Error ''TypeError'')
                       | Some requestedReviewer \<Rightarrow>
                           if requestedReviewer \<noteq> configured_actor
                           then io_return (send 200 ''Not the correct reviewer.'')
                           else io_bind (processPullRequest prNum ow rp) (\<lambda>_.
                                io_return (send 200 ''Processed pull request.'')))))
          else io_return (send 200 ''Event ignored.''))"

text \<open>
  \<open>processPullRequest\<close> of unnamed/part\_000 (lines 58 to 195). The first statement
  of its \<open>try\<close> block builds the GitHub client from \<open>INSTALLATION_ID\<close>, a name the
  module never declares: evaluating it throws a \<open>ReferenceError\<close>, the \<open>catch\<close> logs
  it, and none of the statements after it runs. The function makes no call and
  returns.
\<close>

definition processPullRequest_part000 :: "nat \<Rightarrow> string \<Rightarrow> string \<Rightarrow> unit io" where
  "processPullRequest_part000 prNum ow rp =
     io_catch (io_throw (Error ''ReferenceError: INSTALLATION_ID is not defined''))"

text \<open>
  The application: \<open>app.use(express.json())\<close> (line 17), then
  \<open>app.use(express.json({ verify: verifySignature }))\<close> (line 31), then the route.
\<close>

datatype app_result = Rejected nat | Routed "response io"

definition app_part000 ::
    "(string \<Rightarrow> string \<Rightarrow> string) \<Rightarrow> string \<Rightarrow> (string \<Rightarrow> js_error + gh_payload) \<Rightarrow>
     (nat \<Rightarrow> string \<Rightarrow> string \<Rightarrow> unit io) \<Rightarrow> gh_request \<Rightarrow> app_result" where
  "app_part000 hmac_hex secret parse processPullRequest req =
     (case express_json None parse req of
        Refused code \<Rightarrow> Rejected code
      | Next req1 \<Rightarrow>
          (case express_json (Some (verifySignature hmac_hex secret)) parse req1 of
             Refused code \<Rightarrow> Rejected code
           | Next req2 \<Rightarrow>
               Routed (webhook_github processPullRequest (x_github_event req2) (body req2))))"

section \<open>Observations on a trace\<close>

fun is_reasoning_call :: "action \<Rightarrow> bool" where
  "is_reasoning_call (ChatCompletion m p) = True"
| "is_reasoning_call a = False"

fun is_comment_write :: "action \<Rightarrow> bool" where
  "is_comment_write (CreateComment ow rp n b) = True"
| "is_comment_write a = False"

section \<open>A concrete world\<close>

text \<open>
  Services that answer every call, for a task whose notes name pull request 42 of
  acme/widgets; the theorems below are run on it and on variations of it.
\<close>

definition demo_pull :: pull_request where
  "demo_pull = \<lparr>pr_number = 42, pr_title = ''Add widget'', pr_body = Null, pr_labels = [],
                 pr_assignees = [], pr_requested_reviewers = []\<rparr>"

definition demo_task :: task_details where
  "demo_task = \<lparr>task_tags = [], task_workspace = ''w1'',
                 task_notes = ''see https://github.com/acme/widgets/pull/42 for details''\<rparr>"

definition demo_services :: services where
  "demo_services =
     \<lparr>users_getAuthenticated = Inr ''review-bot'',
      pulls_get = (\<lambda>ow rp n. Inr demo_pull),
      issues_listComments = (\<lambda>ow rp n. Inr []),
      pulls_diff = (\<lambda>ow rp n. Inr ''+ widget''),
      chat_completions_create = (\<lambda>m p. Inr ''LGTM''),
      issues_createComment = (\<lambda>ow rp n b. Inr ()),
      asana_story = (\<lambda>s. Inr \<lparr>story_type = ''comment'', story_text = ''@AsanaPRBot   '',
                                 story_target = ''t1''\<rparr>),
      asana_task = (\<lambda>t. Inr demo_task),
      asana_workspace_tags = (\<lambda>w. Inr []),
      asana_create_tag = (\<lambda>w n. Inr \<lparr>tag_gid = ''g1'', tag_name = n\<rparr>),
      asana_add_tag = (\<lambda>t g. Inr ()),
      redis_sismember_error = (\<lambda>s k. None),
      redis_sadd_error = (\<lambda>s k. None)\<rparr>"

text \<open>The same world, the bot having commented on the pull request already.\<close>

definition demo_bot_comment :: "gh_comment list" where
  "demo_bot_comment =
     [\<lparr>comment_user = \<lparr>login = ''review-bot'', user_type = ''User''\<rparr>,
       comment_body = ''Looks fine.''\<rparr>]"

definition demo_commented :: services where
  "demo_commented = demo_services\<lparr>issues_listComments := (\<lambda>ow rp n. Inr demo_bot_comment)\<rparr>"

text \<open>
  The same world with a comment write that fails, and a delivery of one event: task
  \<open>t1\<close> was added.
\<close>

definition demo_write_fails :: services where
  "demo_write_fails =
     demo_services\<lparr>issues_createComment := (\<lambda>ow rp n b. Inl (Error ''network error''))\<rparr>"

definition demo_task_added :: asana_request where
  "demo_task_added =
     \<lparr>x_hook_secret = Undefined,
      body_events = EventList [Some \<lparr>resource_gid = ''t1'', resource_type = ''task'',
                                     resource_subtype = ''default_task'', event_action = ''added''\<rparr>]\<rparr>"



text \<open>The event of that delivery.\<close>

definition demo_event :: asana_event where
  "demo_event = \<lparr>resource_gid = ''t1'', resource_type = ''task'',
                  resource_subtype = ''default_task'', event_action = ''added''\<rparr>"

text \<open>
  A GitHub delivery: a review is requested from \<open>haghdaee\<close> on pull request 42 of
  acme/widgets. Its signature header is not the digest of its body. The digest
  function and the JSON parser of this world are constant functions. \<open>demo_pipeline\<close>
  is a pipeline that does make calls, the one of fetch\_prs\_final\_asana.js on the
  services above: it stands where the route's parameter is, to show what a routed
  request can set off; the route's own \<open>processPullRequest_part000\<close> makes none.
\<close>

definition demo_hmac :: "string \<Rightarrow> string \<Rightarrow> string" where
  "demo_hmac key message = ''5d41402abc4b2a76b9719d911017c592''"

definition demo_payload :: gh_payload where
  "demo_payload = \<lparr>payload_action = ''review_requested'', pull_request_number = Some 42,
                    repository_owner_login = Some ''acme'', repository_name = ''widgets'',
                    requested_reviewer_login = Some ''haghdaee''\<rparr>"

text \<open>The same review request, made to a team: the payload names no reviewer.\<close>

definition demo_team_payload :: gh_payload where
  "demo_team_payload = demo_payload\<lparr>requested_reviewer_login := None\<rparr>"

definition demo_parse :: "string \<Rightarrow> js_error + gh_payload" where
  "demo_parse raw = Inr demo_payload"

definition demo_forged :: gh_request where
  "demo_forged = \<lparr>x_github_event = Str ''pull_request'',
                   x_hub_signature_256 = Str ''sha256=0000'',
                   has_json_body = True, raw_body = ''{...}'', body_read = False, body = None\<rparr>"

definition demo_pipeline :: "nat \<Rightarrow> string \<Rightarrow> string \<Rightarrow> unit io" where
  "demo_pipeline n ow rp = processPullRequest_final demo_services (dec n) ow rp Null"

text \<open>
  Four comments on a pull request: one by a person, one by an author of type \<open>Bot\<close>,
  one by the acting user, one by another person.
\<close>

definition demo_mixed_comments :: "gh_comment list" where
  "demo_mixed_comments =
     [\<lparr>comment_user = \<lparr>login = ''alice'', user_type = ''User''\<rparr>,
       comment_body = ''Please add tests.''\<rparr>,
      \<lparr>comment_user = \<lparr>login = ''dependabot[bot]'', user_type = ''Bot''\<rparr>,
       comment_body = ''Bumps lodash.''\<rparr>,
      \<lparr>comment_user = \<lparr>login = ''review-bot'', user_type = ''User''\<rparr>,
       comment_body = ''Looks fine.''\<rparr>,
      \<lparr>comment_user = \<lparr>login = ''carol'', user_type = ''User''\<rparr>,
       comment_body = ''Done.''\<rparr>]"

text \<open>
  Two more tasks: one whose notes hold a pull request URL with a path after the
  number, and one whose notes hold the URL of an issue before that of a pull request.
\<close>

definition demo_files_task :: task_details where
  "demo_files_task = \<lparr>task_tags = [], task_workspace = ''w1'',
                       task_notes = ''PR: https://github.com/octo/repo/pull/7/files now''\<rparr>"

definition demo_issue_task :: task_details where
  "demo_issue_task =
     \<lparr>task_tags = [], task_workspace = ''w1'',
      task_notes = ''https://github.com/acme/widgets/issues/7 https://github.com/acme/widgets/pull/42''\<rparr>"

definition demo_files_services :: services where
  "demo_files_services = demo_services\<lparr>asana_task := (\<lambda>t. Inr demo_files_task)\<rparr>"

definition demo_issue_services :: services where
  "demo_issue_services = demo_services\<lparr>asana_task := (\<lambda>t. Inr demo_issue_task)\<rparr>"

section \<open>What a match tells about the text\<close>

lemma first_match_Some:
  "first_match m s = Some r \<Longrightarrow>
     \<exists>pre suf. s = pre @ suf \<and> m suf = Some r \<and> (\<forall>i<length pre. m (drop i s) = None)"
proof (induction s)
  case Nil
  then show ?case by simp
next
  case (Cons c cs)
  show ?case
  proof (cases "m (c # cs)")
    case (Some r')
    with Cons.prems have "m (c # cs) = Some r" by simp
    then have "c # cs = [] @ (c # cs) \<and> m (c # cs) = Some r \<and>
        (\<forall>i<length ([]::string). m (drop i (c # cs)) = None)" by simp
    then show ?thesis by blast
  next
    case None
    with Cons.prems have "first_match m cs = Some r" by simp
    from Cons.IH [OF this] obtain pre suf where
      h: "cs = pre @ suf" "m suf = Some r" "\<forall>i<length pre. m (drop i cs) = None" by blast
    have "\<forall>i<length (c # pre). m (drop i (c # cs)) = None"
    proof (intro allI impI)
      fix i assume "i < length (c # pre)"
      then show "m (drop i (c # cs)) = None"
        using None h(3) by (cases i) auto
    qed
    with h(1,2) have "c # cs = (c # pre) @ suf \<and> m suf = Some r \<and>
        (\<forall>i<length (c # pre). m (drop i (c # cs)) = None)" by simp
    then show ?thesis by blast
  qed
qed

lemma first_match_None:
  "first_match m s = None \<longleftrightarrow> (\<forall>i\<le>length s. m (drop i s) = None)"
proof (induction s)
  case Nil
  then show ?case by simp
next
  case (Cons c cs)
  show ?case
  proof (cases "m (c # cs)")
    case (Some r)
    then have "\<not> (\<forall>i\<le>length (c # cs). m (drop i (c # cs)) = None)"
      by (metis drop0 le0 option.distinct(1))
    with Some show ?thesis by simp
  next
    case None
    have "(\<forall>i\<le>length (c # cs). m (drop i (c # cs)) = None) \<longleftrightarrow>
          (\<forall>i\<le>length cs. m (drop i cs) = None)"
    proof
      assume a: "\<forall>i\<le>length (c # cs). m (drop i (c # cs)) = None"
      show "\<forall>i\<le>length cs. m (drop i cs) = None"
      proof (intro allI impI)
        fix i assume "i \<le> length cs"
        then have "m (drop (Suc i) (c # cs)) = None" using a by (metis Suc_le_mono length_Cons)
        then show "m (drop i cs) = None" by simp
      qed
    next
      assume a: "\<forall>i\<le>length cs. m (drop i cs) = None"
      show "\<forall>i\<le>length (c # cs). m (drop i (c # cs)) = None"
      proof (intro allI impI)
        fix i assume "i \<le> length (c # cs)"
        then show "m (drop i (c # cs)) = None" using a None by (cases i) auto
      qed
    qed
    with None Cons.IH show ?thesis by simp
  qed
qed

lemma first_match_skip:
  "(\<forall>i<length pre. m (drop i (pre @ suf)) = None) \<Longrightarrow>
     first_match m (pre @ suf) = first_match m suf"
proof (induction pre)
  case Nil
  then show ?case by simp
next
  case (Cons c pre)
  have h0: "m ((c # pre) @ suf) = None" using Cons.prems by (metis drop0 length_greater_0_conv list.distinct(1))
  have "\<forall>i<length pre. m (drop i (pre @ suf)) = None"
  proof (intro allI impI)
    fix i assume "i < length pre"
    then have "m (drop (Suc i) ((c # pre) @ suf)) = None" using Cons.prems by (metis Suc_less_eq length_Cons)
    then show "m (drop i (pre @ suf)) = None" by simp
  qed
  from Cons.IH [OF this] h0 show ?case by simp
qed

lemma first_match_here: "m s = Some r \<Longrightarrow> first_match m s = Some r"
  by (cases s) auto

lemma takeWhile_split:
  "\<exists>post. s = takeWhile P s @ post \<and> (post = [] \<or> \<not> P (hd post))"
proof -
  have "s = takeWhile P s @ dropWhile P s" by simp
  moreover have "dropWhile P s = [] \<or> \<not> P (hd (dropWhile P s))"
    by (metis hd_dropWhile)
  ultimately show ?thesis by blast
qed

lemma starts_with_split: "starts_with p s \<Longrightarrow> s = p @ drop (length p) s"
  by (metis append_take_drop_id starts_with_def)

lemma match_url_at_Some:
  assumes "match_url_at s = Some u"
  shows "\<exists>run post. s = u @ post \<and> u = url_prefix @ run \<and> run \<noteq> [] \<and>
           list_all (\<lambda>c. \<not> is_space c) run \<and> (post = [] \<or> is_space (hd post))"
proof -
  let ?rest = "drop (length url_prefix) s"
  let ?run = "takeWhile (\<lambda>c. \<not> is_space c) ?rest"
  from assms have sw: "starts_with url_prefix s" and ne: "?run \<noteq> []" and u: "u = url_prefix @ ?run"
    by (auto simp: match_url_at_def Let_def split: if_splits)
  obtain post where p: "?rest = ?run @ post" "post = [] \<or> \<not> \<not> is_space (hd post)"
    using takeWhile_split [of ?rest "\<lambda>c. \<not> is_space c"] by blast
  have "s = url_prefix @ ?rest" using sw by (rule starts_with_split)
  with p(1) u have "s = u @ post" by simp
  moreover have "list_all (\<lambda>c. \<not> is_space c) ?run"
    by (simp add: list_all_iff) (metis set_takeWhileD)
  ultimately show ?thesis using u ne p(2) by blast
qed

lemma take_takeWhile_length: "take (length (takeWhile P xs)) xs = takeWhile P xs"
  by (metis takeWhile_eq_take)

lemma split_takeWhile_drop: "xs = takeWhile P xs @ drop (length (takeWhile P xs)) xs"
  by (metis append_take_drop_id take_takeWhile_length)

lemma list_all_takeWhile: "list_all P (takeWhile P xs)"
  by (simp add: list_all_iff) (metis set_takeWhileD)

lemma match_pr_at_Some:
  assumes "match_pr_at s = Some (ow, rp, num)"
  shows "\<exists>post. s = ''github.com/'' @ ow @ ''/'' @ rp @ ''/pull/'' @ num @ post \<and>
           ow \<noteq> [] \<and> rp \<noteq> [] \<and> num \<noteq> [] \<and>
           list_all not_slash ow \<and> list_all not_slash rp \<and> list_all is_digit num \<and>
           (post = [] \<or> \<not> is_digit (hd post))"
proof -
  define r1 where "r1 = drop (length ''github.com/'') s"
  define r2 where "r2 = drop (length ow) r1"
  define r3 where "r3 = drop 1 r2"
  define r4 where "r4 = drop (length rp) r3"
  define r5 where "r5 = drop (length ''/pull/'') r4"
  from assms have
    s1: "starts_with ''github.com/'' s" and ow: "ow = takeWhile not_slash r1" and own: "ow \<noteq> []" and
    s2: "starts_with ''/'' r2" and rp: "rp = takeWhile not_slash r3" and rpn: "rp \<noteq> []" and
    s3: "starts_with ''/pull/'' r4" and num: "num = takeWhile is_digit r5" and numn: "num \<noteq> []"
    unfolding r1_def r2_def r3_def r4_def r5_def
    by (auto simp: match_pr_at_def Let_def split: if_splits)
  have e1: "s = ''github.com/'' @ r1" unfolding r1_def using s1 by (rule starts_with_split)
  have e2: "r1 = ow @ r2" unfolding r2_def ow by (rule split_takeWhile_drop)
  have e3: "r2 = ''/'' @ r3" unfolding r3_def using starts_with_split [OF s2] by simp
  have e4: "r3 = rp @ r4" unfolding r4_def rp by (rule split_takeWhile_drop)
  have e5: "r4 = ''/pull/'' @ r5" unfolding r5_def using s3 by (rule starts_with_split)
  obtain post where p: "r5 = num @ post" "post = [] \<or> \<not> is_digit (hd post)"
    using takeWhile_split [of r5 is_digit] num by blast
  have "s = ''github.com/'' @ ow @ ''/'' @ rp @ ''/pull/'' @ num @ post"
    using e1 e2 e3 e4 e5 p(1) by metis
  moreover have "list_all not_slash ow" unfolding ow by (rule list_all_takeWhile)
  moreover have "list_all not_slash rp" unfolding rp by (rule list_all_takeWhile)
  moreover have "list_all is_digit num" unfolding num by (rule list_all_takeWhile)
  ultimately show ?thesis using own rpn numn p(2) by blast
qed

section \<open>Running the pipeline: basic facts\<close>

lemma fst_io_call [simp]: "fst (io_call a r) = [a]"
  by (simp add: io_call_def)

lemma snd_io_call [simp]: "snd (io_call a r) = r"
  by (simp add: io_call_def)

lemma fst_io_return [simp]: "fst (io_return x) = []"
  by (simp add: io_return_def)

lemma snd_io_return [simp]: "snd (io_return x) = Inr x"
  by (simp add: io_return_def)

lemma io_bind_pair_Inr [simp]: "io_bind (t, Inr x) f = (t @ fst (f x), snd (f x))"
  by (simp add: io_bind_def split: prod.splits)

lemma io_bind_pair_Inl [simp]: "io_bind (t, Inl e) f = (t, Inl e)"
  by (simp add: io_bind_def)

lemma io_bind_call_Inr [simp]: "io_bind (io_call a (Inr x)) f = (a # fst (f x), snd (f x))"
  by (simp add: io_bind_def io_call_def split: prod.splits)

lemma io_bind_call_Inl [simp]: "io_bind (io_call a (Inl e)) f = ([a], Inl e)"
  by (simp add: io_bind_def io_call_def)

lemma io_bind_return [simp]: "io_bind (io_return x) f = f x"
  by (simp add: io_bind_def io_return_def split: prod.splits)

lemma io_catch_pair [simp]: "io_catch (t, r) = (t, Inr ())"
  by (simp add: io_catch_def)

lemma io_catch_return [simp]: "io_catch (io_return ()) = ([], Inr ())"
  by (simp add: io_catch_def io_return_def)

lemma io_catch_idem [simp]: "io_catch (io_catch m) = io_catch m"
  by (simp add: io_catch_def)

lemma fst_io_catch [simp]: "fst (io_catch m) = fst m"
  by (simp add: io_catch_def)

lemma snd_io_catch [simp]: "snd (io_catch m) = Inr ()"
  by (simp add: io_catch_def)

lemma processPullRequest_final_returns: "snd (processPullRequest_final sv n ow rp ctx) = Inr ()"
  by (simp add: processPullRequest_final_def)

lemma processPullRequest_part001_returns: "snd (processPullRequest_part001 sv n ow rp ctx) = Inr ()"
  by (simp add: processPullRequest_part001_def)

lemma parseGithubUrl_match:
  assumes "first_match match_pr_at url = Some (ow, rp, num)"
  shows "parseGithubUrl url = \<lparr>owner = Str ow, repo = Str rp, prNumber = Str num\<rparr>"
    and "ow \<noteq> []" and "rp \<noteq> []" and "num \<noteq> []" and "list_all is_digit num"
proof -
  show "parseGithubUrl url = \<lparr>owner = Str ow, repo = Str rp, prNumber = Str num\<rparr>"
    using assms by (simp add: parseGithubUrl_def)
  from first_match_Some [OF assms] obtain suf where "match_pr_at suf = Some (ow, rp, num)" by blast
  from match_pr_at_Some [OF this] show "ow \<noteq> []" "rp \<noteq> []" "num \<noteq> []" "list_all is_digit num"
    by blast+
qed

lemma processAsanaTask_final_resolved:
  assumes "asana_task sv taskId = Inr td"
    and "first_match match_url_at (task_notes td) = Some url"
    and "first_match match_pr_at url = Some (ow, rp, num)"
  shows "processAsanaTask_final sv taskId ctx =
           (GetTask taskId # fst (processPullRequest_final sv num ow rp ctx), Inr ())"
proof -
  from first_match_Some [OF assms(2)] obtain suf where "match_url_at suf = Some url" by blast
  from match_url_at_Some [OF this] have "url \<noteq> []" by auto
  moreover note parseGithubUrl_match [OF assms(3)]
  ultimately show ?thesis
    using assms(1,2)
    by (simp add: processAsanaTask_final_def getAsanaTaskDetails_def extractPrUrlFromTask_def
        processPullRequest_final_returns)
qed

lemma processAsanaTask_final_no_url:
  assumes "asana_task sv taskId = Inr td"
    and "first_match match_url_at (task_notes td) = None"
  shows "processAsanaTask_final sv taskId ctx = ([GetTask taskId], Inr ())"
  using assms
  by (simp add: processAsanaTask_final_def getAsanaTaskDetails_def extractPrUrlFromTask_def io_return_def)

lemma processAsanaTask_final_malformed:
  assumes "asana_task sv taskId = Inr td"
    and "first_match match_url_at (task_notes td) = Some url"
    and "first_match match_pr_at url = None"
  shows "processAsanaTask_final sv taskId ctx = ([GetTask taskId], Inr ())"
proof -
  from first_match_Some [OF assms(2)] obtain suf where "match_url_at suf = Some url" by blast
  from match_url_at_Some [OF this] have "url \<noteq> []" by auto
  then show ?thesis
    using assms
    by (simp add: processAsanaTask_final_def getAsanaTaskDetails_def extractPrUrlFromTask_def
        parseGithubUrl_def io_return_def)
qed

lemma scenario_url:
  "first_match match_url_at ''see https://github.com/acme/widgets/pull/42 for details'' =
     Some ''https://github.com/acme/widgets/pull/42''"
  by (simp add: match_url_at_def starts_with_def url_prefix_def is_space_def)

lemma scenario_parse:
  "first_match match_pr_at ''https://github.com/acme/widgets/pull/42'' = Some (''acme'', ''widgets'', ''42'')"
  by (simp add: match_pr_at_def starts_with_def not_slash_def is_digit_def)

lemma no_url_in_text:
  assumes "\<not> (\<exists>pre c post. d = pre @ url_prefix @ c # post \<and> \<not> is_space c)"
  shows "first_match match_url_at d = None"
proof (rule ccontr)
  assume "first_match match_url_at d \<noteq> None"
  then obtain u where "first_match match_url_at d = Some u" by blast
  from first_match_Some [OF this] obtain pre suf where
    d: "d = pre @ suf" and m: "match_url_at suf = Some u" by blast
  from match_url_at_Some [OF m] obtain run post where
    s: "suf = u @ post" "u = url_prefix @ run" "run \<noteq> []" "list_all (\<lambda>c. \<not> is_space c) run"
    by blast
  from s(3) obtain c cs where run: "run = c # cs" by (cases run) auto
  with s(4) have "\<not> is_space c" by simp
  moreover have "d = pre @ url_prefix @ c # (cs @ post)" using d s(1,2) run by simp
  ultimately show False using assms by blast
qed

section \<open>Target resolution\<close>

lemma all_below_list_all: "list_all P [0..<n] \<Longrightarrow> \<forall>i<n. P i"
  by (simp add: list_all_iff)

lemma takeWhile_run:
  assumes "list_all P xs" and "ys = [] \<or> \<not> P (hd ys)"
  shows "takeWhile P (xs @ ys) = xs"
proof -
  from assms(1) have "takeWhile P (xs @ ys) = xs @ takeWhile P ys"
    by (simp add: list_all_iff takeWhile_append2)
  moreover from assms(2) have "takeWhile P ys = []" by (cases ys) auto
  ultimately show ?thesis by simp
qed

lemma starts_with_append: "starts_with p (p @ s)"
  by (simp add: starts_with_def)

lemma match_url_at_run:
  assumes "run \<noteq> []" and "list_all (\<lambda>c. \<not> is_space c) run"
    and "post = [] \<or> is_space (hd post)"
  shows "match_url_at (url_prefix @ run @ post) = Some (url_prefix @ run)"
proof -
  have "takeWhile (\<lambda>c. \<not> is_space c) (run @ post) = run"
    using assms(2,3) by (intro takeWhile_run) auto
  with assms(1) show ?thesis
    by (simp add: match_url_at_def starts_with_append Let_def)
qed

lemma no_earlier_occurrence:
  assumes "\<forall>p1 c p2. notes = p1 @ url_prefix @ c # p2 \<and> \<not> is_space c \<longrightarrow> length pre \<le> length p1"
    and "i < length pre" and "length pre \<le> length notes"
  shows "match_url_at (drop i notes) = None"
proof (rule ccontr)
  assume "match_url_at (drop i notes) \<noteq> None"
  then obtain u where "match_url_at (drop i notes) = Some u" by blast
  from match_url_at_Some [OF this] obtain run post where
    s: "drop i notes = u @ post" "u = url_prefix @ run" "run \<noteq> []"
       "list_all (\<lambda>c. \<not> is_space c) run" by blast
  from s(3) obtain c cs where run: "run = c # cs" by (cases run) auto
  with s(4) have nc: "\<not> is_space c" by simp
  have "notes = take i notes @ drop i notes" by simp
  with s(1,2) run have "notes = take i notes @ url_prefix @ c # (cs @ post)" by simp
  with assms(1) nc have "length pre \<le> length (take i notes)" by blast
  with assms(2,3) show False by simp
qed

lemma earlier_occurrence_matches:
  assumes "\<forall>i<length pre. match_url_at (drop i notes) = None"
  shows "\<forall>p1 c p2. notes = p1 @ url_prefix @ c # p2 \<and> \<not> is_space c \<longrightarrow> length pre \<le> length p1"
proof (intro allI impI)
  fix p1 c p2
  assume a: "notes = p1 @ url_prefix @ c # p2 \<and> \<not> is_space c"
  show "length pre \<le> length p1"
  proof (rule ccontr)
    assume "\<not> length pre \<le> length p1"
    then have "length p1 < length pre" by simp
    with assms have n: "match_url_at (drop (length p1) notes) = None" by blast
    from a have d: "drop (length p1) notes = url_prefix @ c # p2" by simp
    have "takeWhile (\<lambda>c. \<not> is_space c) (c # p2) \<noteq> []" using a by simp
    then have "match_url_at (url_prefix @ c # p2) \<noteq> None"
      by (simp add: match_url_at_def starts_with_append Let_def)
    with n d show False by simp
  qed
qed

lemma extract_first_url:
  assumes "notes = pre @ url_prefix @ run @ post"
    and "run \<noteq> []" and "list_all (\<lambda>c. \<not> is_space c) run"
    and "post = [] \<or> is_space (hd post)"
    and "\<forall>p1 c p2. notes = p1 @ url_prefix @ c # p2 \<and> \<not> is_space c \<longrightarrow> length pre \<le> length p1"
  shows "first_match match_url_at notes = Some (url_prefix @ run)"
proof -
  have l: "length pre \<le> length notes" using assms(1) by simp
  have "\<forall>i<length pre. match_url_at (drop i (pre @ url_prefix @ run @ post)) = None"
    using no_earlier_occurrence [OF assms(5) _ l] assms(1) by simp
  then have "first_match match_url_at (pre @ url_prefix @ run @ post) =
             first_match match_url_at (url_prefix @ run @ post)"
    by (rule first_match_skip)
  also have "\<dots> = Some (url_prefix @ run)"
    using match_url_at_run [OF assms(2,3,4)] by (rule first_match_here)
  finally show ?thesis using assms(1) by simp
qed

lemma match_pr_at_parts:
  assumes "s = ''github.com/'' @ ow @ ''/'' @ r3"
    and "takeWhile not_slash (ow @ ''/'' @ r3) = ow" and "ow \<noteq> []"
    and "r3 = rp @ ''/pull/'' @ r5"
    and "takeWhile not_slash r3 = rp" and "rp \<noteq> []"
    and "takeWhile is_digit r5 = num" and "num \<noteq> []"
  shows "match_pr_at s = Some (ow, rp, num)"
proof -
  have s1: "starts_with ''github.com/'' s" unfolding assms(1) by (rule starts_with_append)
  have d1: "drop (length ''github.com/'') s = ow @ ''/'' @ r3" unfolding assms(1) by simp
  have d2: "drop (length ow) (ow @ ''/'' @ r3) = ''/'' @ r3" by simp
  have s2: "starts_with ''/'' (''/'' @ r3)" by (rule starts_with_append)
  have d3: "drop 1 (''/'' @ r3) = r3" by simp
  have d4: "drop (length rp) r3 = ''/pull/'' @ r5" unfolding assms(4) by simp
  have s3: "starts_with ''/pull/'' (''/pull/'' @ r5)" by (rule starts_with_append)
  have d5: "drop (length ''/pull/'') (''/pull/'' @ r5) = r5" by simp
  show ?thesis
    unfolding match_pr_at_def Let_def
    by (simp only: s1 d1 assms(2) d2 s2 d3 assms(5) d4 s3 d5 assms(7) assms(3) assms(6) assms(8)
        if_True simp_thms)
qed

lemma match_pr_at_canonical:
  assumes "ow \<noteq> []" and "list_all not_slash ow"
    and "rp \<noteq> []" and "list_all not_slash rp"
    and "num \<noteq> []" and "list_all is_digit num"
    and "rest = [] \<or> \<not> is_digit (hd rest)"
  shows "match_pr_at (''github.com/'' @ ow @ ''/'' @ rp @ ''/pull/'' @ num @ rest) = Some (ow, rp, num)"
proof -
  have 1: "takeWhile not_slash (ow @ ''/'' @ rp @ ''/pull/'' @ num @ rest) = ow"
    using assms(2) by (intro takeWhile_run) (auto simp: not_slash_def)
  have 2: "takeWhile not_slash (rp @ ''/pull/'' @ num @ rest) = rp"
    using assms(4) by (intro takeWhile_run) (auto simp: not_slash_def)
  have 3: "takeWhile is_digit (num @ rest) = num"
    using assms(6,7) by (intro takeWhile_run) auto
  show ?thesis
    by (rule match_pr_at_parts [OF refl 1 assms(1) refl 2 assms(3) 3 assms(5)])
qed

lemma parse_canonical_url:
  assumes "ow \<noteq> []" and "list_all not_slash ow"
    and "rp \<noteq> []" and "list_all not_slash rp"
    and "num \<noteq> []" and "list_all is_digit num"
    and "rest = [] \<or> \<not> is_digit (hd rest)"
  shows "first_match match_pr_at (url_prefix @ ow @ ''/'' @ rp @ ''/pull/'' @ num @ rest) =
           Some (ow, rp, num)"
proof -
  let ?suf = "''github.com/'' @ ow @ ''/'' @ rp @ ''/pull/'' @ num @ rest"
  have u: "url_prefix @ ow @ ''/'' @ rp @ ''/pull/'' @ num @ rest = ''https://'' @ ?suf"
    by (simp add: url_prefix_def)
  have "\<forall>i<length ''https://''. match_pr_at (drop i (''https://'' @ ?suf)) = None"
    by (simp add: All_less_Suc match_pr_at_def starts_with_def)
  then have "first_match match_pr_at (''https://'' @ ?suf) = first_match match_pr_at ?suf"
    by (rule first_match_skip)
  also have "\<dots> = Some (ow, rp, num)"
    using match_pr_at_canonical [OF assms] by (rule first_match_here)
  finally show ?thesis unfolding u .
qed

lemma digit_not_space: "is_digit c \<Longrightarrow> \<not> is_space c"
  by (auto simp: is_digit_def is_space_def)

lemma no_pull_in_url:
  assumes "\<not> (\<exists>a ow rp num b.
              url = a @ ''github.com/'' @ ow @ ''/'' @ rp @ ''/pull/'' @ num @ b \<and>
              ow \<noteq> [] \<and> rp \<noteq> [] \<and> num \<noteq> [] \<and>
              list_all not_slash ow \<and> list_all not_slash rp \<and> list_all is_digit num)"
  shows "first_match match_pr_at url = None"
proof (rule ccontr)
  assume "first_match match_pr_at url \<noteq> None"
  then obtain t where t: "first_match match_pr_at url = Some t" by blast
  obtain ow rp num where "t = (ow, rp, num)" by (cases t) auto
  with first_match_Some [OF t] obtain a suf where
    u: "url = a @ suf" and m: "match_pr_at suf = Some (ow, rp, num)" by blast
  from match_pr_at_Some [OF m] obtain b where
    "suf = ''github.com/'' @ ow @ ''/'' @ rp @ ''/pull/'' @ num @ b"
    "ow \<noteq> []" "rp \<noteq> []" "num \<noteq> []"
    "list_all not_slash ow" "list_all not_slash rp" "list_all is_digit num" by blast
  with u assms show False by blast
qed

text \<open>
  Claim C7, as the code has it. For a task whose details Asana returns,
  \<open>processAsanaTask\<close> of fetch\_prs\_final\_asana.js resolves the target from the
  notes as follows. The notes "see https://github.com/acme/widgets/pull/42 for
  details" lead to the pipeline on owner "acme", repository "widgets" and number "42",
  a string. Notes with no occurrence of \<open>https://github.com/\<close> followed by a
  character that is not white space give no URL, and nothing but the fetch of the task
  happens. In all other notes the URL extracted is the leftmost such occurrence with
  its longest run of characters that are not white space, whatever its shape, and
  only this URL is looked at: when it is \<open>https://github.com/owner/repo/pull/digits\<close>,
  possibly followed by more, the pipeline runs on owner, repository and the string
  of digits; when it holds no \<open>github.com/owner/repo/pull/digits\<close> at all, nothing
  but the fetch of the task happens, also when a pull request URL comes later in the
  notes. The last conjunct says what an extracted URL and its parts look like.
\<close>

theorem target_resolution:
  assumes "asana_task sv taskId = Inr td"
  shows
    "(task_notes td = ''see https://github.com/acme/widgets/pull/42 for details'' \<longrightarrow>
        processAsanaTask_final sv taskId ctx =
          (GetTask taskId # fst (processPullRequest_final sv ''42'' ''acme'' ''widgets'' ctx), Inr ())) \<and>
     (\<not> (\<exists>pre c post. task_notes td = pre @ url_prefix @ c # post \<and> \<not> is_space c) \<longrightarrow>
        extractPrUrlFromTask td = Null \<and>
        processAsanaTask_final sv taskId ctx = ([GetTask taskId], Inr ())) \<and>
     (\<forall>pre run post.
        task_notes td = pre @ url_prefix @ run @ post \<and> run \<noteq> [] \<and>
        list_all (\<lambda>c. \<not> is_space c) run \<and> (post = [] \<or> is_space (hd post)) \<and>
        (\<forall>p1 c p2. task_notes td = p1 @ url_prefix @ c # p2 \<and> \<not> is_space c \<longrightarrow>
                    length pre \<le> length p1) \<longrightarrow>
        extractPrUrlFromTask td = Str (url_prefix @ run)) \<and>
     (\<forall>ow rp num rest.
        extractPrUrlFromTask td = Str (url_prefix @ ow @ ''/'' @ rp @ ''/pull/'' @ num @ rest) \<and>
        ow \<noteq> [] \<and> list_all not_slash ow \<and> rp \<noteq> [] \<and> list_all not_slash rp \<and>
        num \<noteq> [] \<and> list_all is_digit num \<and> (rest = [] \<or> \<not> is_digit (hd rest)) \<longrightarrow>
        processAsanaTask_final sv taskId ctx =
          (GetTask taskId # fst (processPullRequest_final sv num ow rp ctx), Inr ())) \<and>
     (\<forall>url.
        extractPrUrlFromTask td = Str url \<and>
        \<not> (\<exists>a ow rp num b.
              url = a @ ''github.com/'' @ ow @ ''/'' @ rp @ ''/pull/'' @ num @ b \<and>
              ow \<noteq> [] \<and> rp \<noteq> [] \<and> num \<noteq> [] \<and>
              list_all not_slash ow \<and> list_all not_slash rp \<and> list_all is_digit num) \<longrightarrow>
        processAsanaTask_final sv taskId ctx = ([GetTask taskId], Inr ())) \<and>
     (\<forall>url. extractPrUrlFromTask td = Str url \<longrightarrow>
        (\<exists>pre run post.
           task_notes td = pre @ url @ post \<and> url = url_prefix @ run \<and> run \<noteq> [] \<and>
           list_all (\<lambda>c. \<not> is_space c) run \<and> (post = [] \<or> is_space (hd post)) \<and>
           (\<forall>i<length pre. match_url_at (drop i (task_notes td)) = None)) \<and>
        (case first_match match_pr_at url of
           None \<Rightarrow> processAsanaTask_final sv taskId ctx = ([GetTask taskId], Inr ())
         | Some (ow, rp, num) \<Rightarrow>
             (\<exists>a b. url = a @ ''github.com/'' @ ow @ ''/'' @ rp @ ''/pull/'' @ num @ b) \<and>
             ow \<noteq> [] \<and> rp \<noteq> [] \<and> num \<noteq> [] \<and> list_all is_digit num \<and>
             processAsanaTask_final sv taskId ctx =
               (GetTask taskId # fst (processPullRequest_final sv num ow rp ctx), Inr ())))"
proof (intro conjI impI allI)
  assume "task_notes td = ''see https://github.com/acme/widgets/pull/42 for details''"
  then have "first_match match_url_at (task_notes td) = Some ''https://github.com/acme/widgets/pull/42''"
    using scenario_url by simp
  from processAsanaTask_final_resolved [OF assms this scenario_parse]
  show "processAsanaTask_final sv taskId ctx =
          (GetTask taskId # fst (processPullRequest_final sv ''42'' ''acme'' ''widgets'' ctx), Inr ())" .
next
  assume "\<not> (\<exists>pre c post. task_notes td = pre @ url_prefix @ c # post \<and> \<not> is_space c)"
  then have n: "first_match match_url_at (task_notes td) = None" by (rule no_url_in_text)
  then show "extractPrUrlFromTask td = Null" by (simp add: extractPrUrlFromTask_def)
  from processAsanaTask_final_no_url [OF assms n]
  show "processAsanaTask_final sv taskId ctx = ([GetTask taskId], Inr ())" .
next
  fix pre run post
  assume a: "task_notes td = pre @ url_prefix @ run @ post \<and> run \<noteq> [] \<and>
        list_all (\<lambda>c. \<not> is_space c) run \<and> (post = [] \<or> is_space (hd post)) \<and>
        (\<forall>p1 c p2. task_notes td = p1 @ url_prefix @ c # p2 \<and> \<not> is_space c \<longrightarrow>
                    length pre \<le> length p1)"
  then have "first_match match_url_at (task_notes td) = Some (url_prefix @ run)"
    by (intro extract_first_url) blast+
  then show "extractPrUrlFromTask td = Str (url_prefix @ run)"
    by (simp add: extractPrUrlFromTask_def)
next
  fix ow rp num rest
  assume a: "extractPrUrlFromTask td = Str (url_prefix @ ow @ ''/'' @ rp @ ''/pull/'' @ num @ rest) \<and>
        ow \<noteq> [] \<and> list_all not_slash ow \<and> rp \<noteq> [] \<and> list_all not_slash rp \<and>
        num \<noteq> [] \<and> list_all is_digit num \<and> (rest = [] \<or> \<not> is_digit (hd rest))"
  then have u: "first_match match_url_at (task_notes td) =
                Some (url_prefix @ ow @ ''/'' @ rp @ ''/pull/'' @ num @ rest)"
    by (simp add: extractPrUrlFromTask_def split: option.splits)
  from a have "first_match match_pr_at (url_prefix @ ow @ ''/'' @ rp @ ''/pull/'' @ num @ rest) =
               Some (ow, rp, num)"
    by (intro parse_canonical_url) blast+
  from processAsanaTask_final_resolved [OF assms u this]
  show "processAsanaTask_final sv taskId ctx =
          (GetTask taskId # fst (processPullRequest_final sv num ow rp ctx), Inr ())" .
next
  fix url
  assume a: "extractPrUrlFromTask td = Str url \<and>
        \<not> (\<exists>a ow rp num b.
              url = a @ ''github.com/'' @ ow @ ''/'' @ rp @ ''/pull/'' @ num @ b \<and>
              ow \<noteq> [] \<and> rp \<noteq> [] \<and> num \<noteq> [] \<and>
              list_all not_slash ow \<and> list_all not_slash rp \<and> list_all is_digit num)"
  then have u: "first_match match_url_at (task_notes td) = Some url"
    by (simp add: extractPrUrlFromTask_def split: option.splits)
  from a have "first_match match_pr_at url = None" by (intro no_pull_in_url) blast
  from processAsanaTask_final_malformed [OF assms u this]
  show "processAsanaTask_final sv taskId ctx = ([GetTask taskId], Inr ())" .
next
  fix url assume "extractPrUrlFromTask td = Str url"
  then have u: "first_match match_url_at (task_notes td) = Some url"
    by (simp add: extractPrUrlFromTask_def split: option.splits)
  from first_match_Some [OF u] obtain pre suf where
    d: "task_notes td = pre @ suf" and m: "match_url_at suf = Some url"
    and f: "\<forall>i<length pre. match_url_at (drop i (task_notes td)) = None" by blast
  from match_url_at_Some [OF m] obtain run post where
    "suf = url @ post" "url = url_prefix @ run" "run \<noteq> []" "list_all (\<lambda>c. \<not> is_space c) run"
    "post = [] \<or> is_space (hd post)" by blast
  with d f show "\<exists>pre run post.
           task_notes td = pre @ url @ post \<and> url = url_prefix @ run \<and> run \<noteq> [] \<and>
           list_all (\<lambda>c. \<not> is_space c) run \<and> (post = [] \<or> is_space (hd post)) \<and>
           (\<forall>i<length pre. match_url_at (drop i (task_notes td)) = None)" by blast
  show "case first_match match_pr_at url of
           None \<Rightarrow> processAsanaTask_final sv taskId ctx = ([GetTask taskId], Inr ())
         | Some (ow, rp, num) \<Rightarrow>
             (\<exists>a b. url = a @ ''github.com/'' @ ow @ ''/'' @ rp @ ''/pull/'' @ num @ b) \<and>
             ow \<noteq> [] \<and> rp \<noteq> [] \<and> num \<noteq> [] \<and> list_all is_digit num \<and>
             processAsanaTask_final sv taskId ctx =
               (GetTask taskId # fst (processPullRequest_final sv num ow rp ctx), Inr ())"
  proof (cases "first_match match_pr_at url")
    case None
    with processAsanaTask_final_malformed [OF assms u None] show ?thesis by simp
  next
    case (Some t)
    obtain ow rp num where t: "t = (ow, rp, num)" by (cases t) auto
    from first_match_Some [OF Some [unfolded t]] obtain a suf' where
      "url = a @ suf'" "match_pr_at suf' = Some (ow, rp, num)" by blast
    moreover from match_pr_at_Some [OF this(2)] obtain b where
      "suf' = ''github.com/'' @ ow @ ''/'' @ rp @ ''/pull/'' @ num @ b" by blast
    ultimately have "\<exists>a b. url = a @ ''github.com/'' @ ow @ ''/'' @ rp @ ''/pull/'' @ num @ b" by blast
    with parseGithubUrl_match(2-5) [OF Some [unfolded t]]
      processAsanaTask_final_resolved [OF assms u Some [unfolded t]]
    show ?thesis using Some t by simp
  qed
qed

theorem target_resolution_witness:
  "asana_task demo_files_services ''t2'' = Inr demo_files_task \<and>
   task_notes demo_files_task = ''PR: '' @ url_prefix @ ''octo/repo/pull/7/files'' @ '' now'' \<and>
   extractPrUrlFromTask demo_files_task = Str ''https://github.com/octo/repo/pull/7/files'' \<and>
   processAsanaTask_final demo_files_services ''t2'' Null =
     (GetTask ''t2'' # fst (processPullRequest_final demo_files_services ''7'' ''octo'' ''repo'' Null),
      Inr ())"
proof -
  have a: "asana_task demo_files_services ''t2'' = Inr demo_files_task"
    by (simp add: demo_files_services_def)
  have n: "task_notes demo_files_task = ''PR: '' @ url_prefix @ ''octo/repo/pull/7/files'' @ '' now''"
    by (simp add: demo_files_task_def url_prefix_def)
  have r: "''octo/repo/pull/7/files'' \<noteq> []" "list_all (\<lambda>c. \<not> is_space c) ''octo/repo/pull/7/files''"
    "'' now'' = [] \<or> is_space (hd '' now'')"
    by (simp_all add: is_space_def)
  have "list_all (\<lambda>i. match_url_at (drop i (task_notes demo_files_task)) = None) [0..<length ''PR: '']"
    by code_simp
  then have "\<forall>i<length ''PR: ''. match_url_at (drop i (task_notes demo_files_task)) = None"
    by (rule all_below_list_all)
  then have e: "\<forall>p1 c p2. task_notes demo_files_task = p1 @ url_prefix @ c # p2 \<and> \<not> is_space c \<longrightarrow>
                    length ''PR: '' \<le> length p1"
    by (rule earlier_occurrence_matches)
  note t = target_resolution [OF a, of Null]
  note extraction = t [THEN conjunct2, THEN conjunct2, THEN conjunct1, rule_format]
  note resolution = t [THEN conjunct2, THEN conjunct2, THEN conjunct2, THEN conjunct1, rule_format]
  from n r e have "task_notes demo_files_task = ''PR: '' @ url_prefix @ ''octo/repo/pull/7/files'' @ '' now'' \<and>
        ''octo/repo/pull/7/files'' \<noteq> [] \<and>
        list_all (\<lambda>c. \<not> is_space c) ''octo/repo/pull/7/files'' \<and>
        ('' now'' = [] \<or> is_space (hd '' now'')) \<and>
        (\<forall>p1 c p2. task_notes demo_files_task = p1 @ url_prefix @ c # p2 \<and> \<not> is_space c \<longrightarrow>
                    length ''PR: '' \<le> length p1)"
    by (intro conjI)
  then have x: "extractPrUrlFromTask demo_files_task = Str (url_prefix @ ''octo/repo/pull/7/files'')"
    by (rule extraction)
  have u: "url_prefix @ ''octo/repo/pull/7/files'' =
           url_prefix @ ''octo'' @ ''/'' @ ''repo'' @ ''/pull/'' @ ''7'' @ ''/files''" by simp
  have c: "''octo'' \<noteq> []" "list_all not_slash ''octo''" "''repo'' \<noteq> []" "list_all not_slash ''repo''"
    "''7'' \<noteq> []" "list_all is_digit ''7''" "''/files'' = [] \<or> \<not> is_digit (hd ''/files'')"
    by (simp_all add: not_slash_def is_digit_def)
  from x [unfolded u] c
  have "extractPrUrlFromTask demo_files_task =
          Str (url_prefix @ ''octo'' @ ''/'' @ ''repo'' @ ''/pull/'' @ ''7'' @ ''/files'') \<and>
        ''octo'' \<noteq> [] \<and> list_all not_slash ''octo'' \<and> ''repo'' \<noteq> [] \<and> list_all not_slash ''repo'' \<and>
        ''7'' \<noteq> [] \<and> list_all is_digit ''7'' \<and> (''/files'' = [] \<or> \<not> is_digit (hd ''/files''))"
    by (intro conjI)
  then have p: "processAsanaTask_final demo_files_services ''t2'' Null =
     (GetTask ''t2'' # fst (processPullRequest_final demo_files_services ''7'' ''octo'' ''repo'' Null),
      Inr ())"
    by (rule resolution)
  from a n x p show ?thesis by (simp add: url_prefix_def)
qed

text \<open>
  Notes that hold the URL of an issue before the URL of a pull request: the URL
  extracted is the issue's, it is not a pull request URL, and the task is dropped
  although the pull request URL that follows would resolve.
\<close>

theorem first_url_is_not_the_pull_request:
  "task_notes demo_issue_task =
     ''https://github.com/acme/widgets/issues/7 '' @ ''https://github.com/acme/widgets/pull/42'' \<and>
   first_match match_pr_at ''https://github.com/acme/widgets/pull/42'' = Some (''acme'', ''widgets'', ''42'') \<and>
   extractPrUrlFromTask demo_issue_task = Str ''https://github.com/acme/widgets/issues/7'' \<and>
   processAsanaTask_final demo_issue_services ''t1'' Null = ([GetTask ''t1''], Inr ())"
proof -
  have a: "asana_task demo_issue_services ''t1'' = Inr demo_issue_task"
    by (simp add: demo_issue_services_def)
  have n: "task_notes demo_issue_task =
     ''https://github.com/acme/widgets/issues/7 '' @ ''https://github.com/acme/widgets/pull/42''"
    by (simp add: demo_issue_task_def)
  have u: "first_match match_url_at (task_notes demo_issue_task) =
           Some ''https://github.com/acme/widgets/issues/7''"
    by code_simp
  have p: "first_match match_pr_at ''https://github.com/acme/widgets/issues/7'' = None"
    by code_simp
  from processAsanaTask_final_malformed [OF a u p, of Null] n u scenario_parse
  show ?thesis by (simp add: extractPrUrlFromTask_def)
qed




section \<open>The instruction of a comment\<close>

lemma js_includes_start: "starts_with p s \<Longrightarrow> js_includes s p"
  by (cases s) (auto simp: starts_with_def)

lemma js_includes_append: "js_includes (pre @ p @ post) p"
proof (induction pre)
  case Nil
  show ?case by (simp add: js_includes_start starts_with_def)
next
  case (Cons c pre)
  then show ?case by simp
qed

lemma dropWhile_all: "list_all P xs \<Longrightarrow> dropWhile P xs = []"
  by (induction xs) auto

lemma trim_empty: "trim [] = []"
  by (simp add: trim_def)

lemma match_mention_at_blank:
  assumes "list_all is_space ws"
  shows "match_mention_at (mention_marker @ ws) = Some []"
  using assms by (simp add: match_mention_at_def starts_with_ci_def dropWhile_all)

lemma extract_instruction_blank:
  assumes "list_all is_space ws"
    and "\<forall>i<length pre. match_mention_at (drop i (pre @ mention_marker @ ws)) = None"
  shows "extract_instruction (pre @ mention_marker @ ws) = Str []"
proof -
  have "first_match match_mention_at (pre @ mention_marker @ ws) =
        first_match match_mention_at (mention_marker @ ws)"
    using assms(2) by (rule first_match_skip)
  also have "\<dots> = Some []"
    using match_mention_at_blank [OF assms(1)] by (rule first_match_here)
  finally show ?thesis by (simp add: extract_instruction_def trim_empty)
qed

lemma processPullRequest_final_empty_context:
  "processPullRequest_final sv n ow rp (Str []) = processPullRequest_final sv n ow rp Null"
  by (simp add: processPullRequest_final_def finalPrompt_final_def prompt_final_def asanaContext_def)

lemma processAsanaTask_final_empty_context:
  "processAsanaTask_final sv taskId (Str []) = processAsanaTask_final sv taskId Null"
  unfolding processAsanaTask_final_def processPullRequest_final_empty_context by (rule refl)

lemma processAsanaStory_final_blank:
  assumes "asana_story sv storyId = Inr sd"
    and "story_type sd = ''comment''"
    and "js_includes (story_text sd) mention_marker"
    and "extract_instruction (story_text sd) = Str []"
  shows "processAsanaStory_final sv storyId =
           (GetStory storyId # GetTask (story_target sd) #
              (case asana_task sv (story_target sd) of
                 Inl e \<Rightarrow> []
               | Inr td \<Rightarrow> fst (processAsanaTask_final sv (story_target sd) Null)),
            Inr ())"
  using assms
  by (cases "asana_task sv (story_target sd)")
     (simp_all add: processAsanaStory_final_def getAsanaStoryDetails_def getAsanaTaskDetails_def
        Let_def processAsanaTask_final_empty_context)

text \<open>
  Claim C10, as the code has it. The instruction is taken from the first mention of
  \<open>@AsanaPRBot\<close> in the comment, in whatever letter case. When the comment holds the
  marker and its first mention is followed by white space only (or by nothing), the
  comment triggers the bot, the instruction extracted is the empty string, and the
  pipeline does with it exactly what it does with no instruction: the final prompt is
  the unconstrained one, the prompt has no section of additional context,
  \<open>processPullRequest\<close> and \<open>processAsanaTask\<close> equal their runs on \<open>null\<close>, and
  \<open>processAsanaStory\<close> on a story with that comment is the fetch of the story, the
  fetch of its task and the run of \<open>processAsanaTask\<close> on \<open>null\<close>.
\<close>

theorem blank_instruction_is_no_instruction:
  assumes "commentText = pre @ mention_marker @ ws"
    and "list_all is_space ws"
    and "\<forall>i<length pre. match_mention_at (drop i commentText) = None"
  shows "js_includes commentText mention_marker \<and>
         extract_instruction commentText = Str [] \<and>
         (\<forall>prompt. finalPrompt_final (extract_instruction commentText) prompt =
                    unconstrained_prompt prompt) \<and>
         (\<forall>pr comments diff.
            prompt_final pr comments diff (extract_instruction commentText) =
            prompt_final pr comments diff Null) \<and>
         (\<forall>sv n ow rp.
            processPullRequest_final sv n ow rp (extract_instruction commentText) =
            processPullRequest_final sv n ow rp Null) \<and>
         (\<forall>sv taskId.
            processAsanaTask_final sv taskId (extract_instruction commentText) =
            processAsanaTask_final sv taskId Null) \<and>
         (\<forall>sv storyId sd.
            asana_story sv storyId = Inr sd \<and> story_type sd = ''comment'' \<and>
            story_text sd = commentText \<longrightarrow>
            processAsanaStory_final sv storyId =
              (GetStory storyId # GetTask (story_target sd) #
                 (case asana_task sv (story_target sd) of
                    Inl e \<Rightarrow> []
                  | Inr td \<Rightarrow> fst (processAsanaTask_final sv (story_target sd) Null)),
               Inr ()))"
proof -
  have e: "extract_instruction commentText = Str []"
    using assms extract_instruction_blank by simp
  have i: "js_includes commentText mention_marker"
    unfolding assms(1) by (rule js_includes_append)
  have s: "processAsanaStory_final sv storyId =
              (GetStory storyId # GetTask (story_target sd) #
                 (case asana_task sv (story_target sd) of
                    Inl e \<Rightarrow> []
                  | Inr td \<Rightarrow> fst (processAsanaTask_final sv (story_target sd) Null)),
               Inr ())"
    if "asana_story sv storyId = Inr sd" "story_type sd = ''comment''" "story_text sd = commentText"
    for sv storyId sd
    using processAsanaStory_final_blank [OF that(1,2)] i e that(3) by simp
  from e i s show ?thesis
    by (simp add: finalPrompt_final_def prompt_final_def asanaContext_def
        processPullRequest_final_empty_context processAsanaTask_final_empty_context)
qed

theorem blank_instruction_is_no_instruction_witness:
  "js_includes ''Thanks! @AsanaPRBot  '' mention_marker \<and>
   extract_instruction ''Thanks! @AsanaPRBot  '' = Str [] \<and>
   finalPrompt_final (extract_instruction ''Thanks! @AsanaPRBot  '') ''p'' = unconstrained_prompt ''p'' \<and>
   processAsanaTask_final demo_services ''t1'' (extract_instruction ''Thanks! @AsanaPRBot  '') =
   processAsanaTask_final demo_services ''t1'' Null"
proof -
  have a: "''Thanks! @AsanaPRBot  '' = ''Thanks! '' @ mention_marker @ ''  ''"
    by (simp add: mention_marker_def)
  have b: "list_all is_space ''  ''" by (simp add: is_space_def)
  have "list_all (\<lambda>i. match_mention_at (drop i ''Thanks! @AsanaPRBot  '') = None)
          [0..<length ''Thanks! '']"
    by code_simp
  then have c: "\<forall>i<length ''Thanks! ''. match_mention_at (drop i ''Thanks! @AsanaPRBot  '') = None"
    by (rule all_below_list_all)
  from blank_instruction_is_no_instruction [OF a b c] show ?thesis by blast
qed

text \<open>
  A comment that holds the marker followed by nothing, after an earlier mention: the
  instruction is what follows the earlier mention, and the final prompt is the
  constrained one. The earlier mention may be in another letter case than the marker
  the trigger looks for.
\<close>

theorem later_mention_is_not_the_instruction:
  "''@AsanaPRBot do X @AsanaPRBot'' = ''@AsanaPRBot do X '' @ mention_marker @ [] \<and>
   js_includes ''@AsanaPRBot do X @AsanaPRBot'' mention_marker \<and>
   extract_instruction ''@AsanaPRBot do X @AsanaPRBot'' = Str ''do X @AsanaPRBot'' \<and>
   finalPrompt_final (extract_instruction ''@AsanaPRBot do X @AsanaPRBot'') ''p'' =
     constrained_prompt ''do X @AsanaPRBot'' ''p'' \<and>
   ''@asanaprbot review security @AsanaPRBot'' = ''@asanaprbot review security '' @ mention_marker @ [] \<and>
   js_includes ''@asanaprbot review security @AsanaPRBot'' mention_marker \<and>
   extract_instruction ''@asanaprbot review security @AsanaPRBot'' = Str ''review security @AsanaPRBot'' \<and>
   finalPrompt_final (extract_instruction ''@asanaprbot review security @AsanaPRBot'') ''p'' =
     constrained_prompt ''review security @AsanaPRBot'' ''p''"
proof -
  have 1: "extract_instruction ''@AsanaPRBot do X @AsanaPRBot'' = Str ''do X @AsanaPRBot''"
    by code_simp
  have 2: "extract_instruction ''@asanaprbot review security @AsanaPRBot'' = Str ''review security @AsanaPRBot''"
    by code_simp
  have 3: "js_includes ''@AsanaPRBot do X @AsanaPRBot'' mention_marker"
    "js_includes ''@asanaprbot review security @AsanaPRBot'' mention_marker"
    by code_simp+
  show ?thesis
    unfolding 1 2 using 3 by (simp add: finalPrompt_final_def mention_marker_def)
qed

section \<open>The completion guard\<close>

text \<open>
  Claim C3, as the code has it. In unnamed/part\_001, when the comments fetched for
  the pull request hold a comment whose author is the authenticated user,
  \<open>processPullRequest\<close> stops after fetching them: its calls are the lookup of the
  authenticated user, the fetch of the pull request and (when that succeeded) the
  fetch of the comments; the reasoning engine is not called and no comment is
  written.
\<close>

theorem identity_witness_skips_reasoning:
  assumes "users_getAuthenticated sv = Inr botUsername"
    and "issues_listComments sv ow rp n = Inr comments"
    and "list_ex (\<lambda>c. login (comment_user c) = botUsername) comments"
  shows "processPullRequest_part001 sv n ow rp ctx =
           (GetAuthenticated # PullsGet ow rp n #
              (case pulls_get sv ow rp n of Inl e \<Rightarrow> [] | Inr pr \<Rightarrow> [ListComments ow rp n]),
            Inr ()) \<and>
         \<not> list_ex is_reasoning_call (fst (processPullRequest_part001 sv n ow rp ctx)) \<and>
         \<not> list_ex is_comment_write (fst (processPullRequest_part001 sv n ow rp ctx))"
proof -
  have "processPullRequest_part001 sv n ow rp ctx =
           (GetAuthenticated # PullsGet ow rp n #
              (case pulls_get sv ow rp n of Inl e \<Rightarrow> [] | Inr pr \<Rightarrow> [ListComments ow rp n]),
            Inr ())"
    using assms
    by (cases "pulls_get sv ow rp n") (simp_all add: processPullRequest_part001_def io_return_def)
  then show ?thesis by (simp split: sum.splits)
qed

theorem identity_witness_skips_reasoning_witness:
  "processPullRequest_part001 demo_commented ''42'' ''acme'' ''widgets'' Null =
     ([GetAuthenticated, PullsGet ''acme'' ''widgets'' ''42'', ListComments ''acme'' ''widgets'' ''42''],
      Inr ())"
proof -
  have a: "users_getAuthenticated demo_commented = Inr ''review-bot''"
    by (simp add: demo_commented_def demo_services_def)
  have b: "issues_listComments demo_commented ''acme'' ''widgets'' ''42'' = Inr demo_bot_comment"
    by (simp add: demo_commented_def)
  have c: "list_ex (\<lambda>c. login (comment_user c) = ''review-bot'') demo_bot_comment"
    by (simp add: demo_bot_comment_def)
  have d: "pulls_get demo_commented ''acme'' ''widgets'' ''42'' = Inr demo_pull"
    by (simp add: demo_commented_def demo_services_def)
  from identity_witness_skips_reasoning [OF a b c, of Null] d show ?thesis by simp
qed

text \<open>
  \<open>processPullRequest\<close> of fetch\_prs\_final\_asana.js has no such check: on a pull
  request that carries a comment of the acting user it calls the reasoning engine and
  writes a comment.
\<close>

theorem final_variant_has_no_guard:
  "users_getAuthenticated demo_commented = Inr ''review-bot'' \<and>
   issues_listComments demo_commented ''acme'' ''widgets'' ''42'' = Inr demo_bot_comment \<and>
   list_ex (\<lambda>c. login (comment_user c) = ''review-bot'') demo_bot_comment \<and>
   list_ex is_reasoning_call (fst (processPullRequest_final demo_commented ''42'' ''acme'' ''widgets'' Null)) \<and>
   list_ex is_comment_write (fst (processPullRequest_final demo_commented ''42'' ''acme'' ''widgets'' Null))"
  by (simp add: demo_commented_def demo_services_def demo_bot_comment_def
      processPullRequest_final_def Let_def)

section \<open>The comments of the prompt\<close>

lemma join_infix: "x \<in> set xs \<Longrightarrow> \<exists>a b. join sep xs = a @ x @ b"
proof (induction sep xs rule: join.induct)
  case (1 sep)
  then show ?case by simp
next
  case (2 sep y)
  then have "join sep [y] = [] @ x @ []" by simp
  then show ?case by blast
next
  case (3 sep y z zs)
  show ?case
  proof (cases "x = y")
    case True
    then have "join sep (y # z # zs) = [] @ x @ (sep @ join sep (z # zs))" by simp
    then show ?thesis by blast
  next
    case False
    with "3.prems" have "x \<in> set (z # zs)" by simp
    from "3.IH" [OF this] obtain a b where "join sep (z # zs) = a @ x @ b" by blast
    then have "join sep (y # z # zs) = (y @ sep @ a) @ x @ b" by simp
    then show ?thesis by blast
  qed
qed

lemma comment_line_not_empty: "comment_line c \<noteq> []"
  by (simp add: comment_line_def)

lemma commentsSection_of_infix:
  assumes "c \<in> set cs"
  shows "\<exists>a b. commentsSection_of cs = a @ comment_line c @ b"
proof -
  from assms have "comment_line c \<in> set (map comment_line cs)" by simp
  from join_infix [OF this] obtain a b where
    j: "join ''\<newline>'' (map comment_line cs) = a @ comment_line c @ b" by blast
  with comment_line_not_empty have ne: "join ''\<newline>'' (map comment_line cs) \<noteq> []" by auto
  have "commentsSection_of cs = (''**Comments:**\<newline>'' @ a) @ comment_line c @ (b @ ''\<newline>\<newline>'')"
    using ne j by (simp add: commentsSection_of_def Let_def)
  then show ?thesis by blast
qed

lemma humanComments_drop_actor:
  "humanComments actor (filter (\<lambda>c. login (comment_user c) \<noteq> actor) comments) = humanComments actor comments"
  by (induction comments) (auto simp: humanComments_def)

lemma join_not_empty: "x \<in> set xs \<Longrightarrow> x \<noteq> [] \<Longrightarrow> join sep xs \<noteq> []"
  using join_infix [of x xs sep] by auto

lemma commentsSection_of_lines:
  "commentsSection_of cs =
     (if cs = [] then []
      else ''**Comments:**\<newline>'' @ join ''\<newline>'' (map comment_line cs) @ ''\<newline>\<newline>'')"
proof (cases cs)
  case Nil
  then show ?thesis by (simp add: commentsSection_of_def)
next
  case (Cons c cs')
  then have "comment_line c \<in> set (map comment_line cs)" by simp
  from join_not_empty [OF this comment_line_not_empty]
  show ?thesis using Cons by (simp add: commentsSection_of_def Let_def)
qed

lemma humanComments_drop_bots:
  "humanComments actor (filter (\<lambda>c. user_type (comment_user c) \<noteq> ''Bot'') comments) =
   humanComments actor comments"
  by (induction comments) (auto simp: humanComments_def)

text \<open>
  Claim C4, as the code has it. In unnamed/part\_001 the comments section is composed
  from the fetched comments whose author is not of type \<open>Bot\<close> and is not the
  authenticated user, and from all of these, in the order fetched: the section is the
  heading and their lines, or empty when there is none; the line of each of them
  stands in it; and section and prompt are the same as if the comments of the
  authenticated user, or those of authors of type \<open>Bot\<close>, had not been fetched. In
  fetch\_prs\_final\_asana.js and asana\_ai\_reviewer.js nothing is filtered: the section
  is the heading and the lines of all fetched comments, so the line of every fetched
  comment, whoever wrote it, stands in the section and in the prompt.
\<close>

theorem comments_section_contents:
  "commentsSection_part001 actor comments =
     (if filter (\<lambda>c. user_type (comment_user c) \<noteq> ''Bot'' \<and> login (comment_user c) \<noteq> actor)
           comments = []
      then []
      else ''**Comments:**\<newline>'' @
           join ''\<newline>''
             (map comment_line
                (filter (\<lambda>c. user_type (comment_user c) \<noteq> ''Bot'' \<and>
                             login (comment_user c) \<noteq> actor) comments)) @
           ''\<newline>\<newline>'') \<and>
   (\<forall>c\<in>set comments.
      user_type (comment_user c) \<noteq> ''Bot'' \<and> login (comment_user c) \<noteq> actor \<longrightarrow>
      (\<exists>a b. commentsSection_part001 actor comments = a @ comment_line c @ b)) \<and>
   commentsSection_part001 actor (filter (\<lambda>c. login (comment_user c) \<noteq> actor) comments) =
     commentsSection_part001 actor comments \<and>
   commentsSection_part001 actor (filter (\<lambda>c. user_type (comment_user c) \<noteq> ''Bot'') comments) =
     commentsSection_part001 actor comments \<and>
   prompt_part001 actor pr (filter (\<lambda>c. login (comment_user c) \<noteq> actor) comments) diff ctx =
     prompt_part001 actor pr comments diff ctx \<and>
   prompt_part001 actor pr (filter (\<lambda>c. user_type (comment_user c) \<noteq> ''Bot'') comments) diff ctx =
     prompt_part001 actor pr comments diff ctx \<and>
   commentsSection_final comments =
     (if comments = [] then []
      else ''**Comments:**\<newline>'' @ join ''\<newline>'' (map comment_line comments) @ ''\<newline>\<newline>'') \<and>
   (\<forall>c\<in>set comments. \<exists>a b. commentsSection_final comments = a @ comment_line c @ b) \<and>
   (\<forall>c\<in>set comments. \<exists>a b. prompt_final pr comments diff ctx = a @ comment_line c @ b)"
proof -
  have 0: "commentsSection_part001 actor comments =
     (if filter (\<lambda>c. user_type (comment_user c) \<noteq> ''Bot'' \<and> login (comment_user c) \<noteq> actor)
           comments = []
      then []
      else ''**Comments:**\<newline>'' @
           join ''\<newline>''
             (map comment_line
                (filter (\<lambda>c. user_type (comment_user c) \<noteq> ''Bot'' \<and>
                             login (comment_user c) \<noteq> actor) comments)) @
           ''\<newline>\<newline>'')"
    unfolding commentsSection_part001_def humanComments_def by (rule commentsSection_of_lines)
  have 1: "\<exists>a b. commentsSection_part001 actor comments = a @ comment_line c @ b"
    if "c \<in> set comments" "user_type (comment_user c) \<noteq> ''Bot''" "login (comment_user c) \<noteq> actor"
    for c
  proof -
    from that have "c \<in> set (humanComments actor comments)" by (simp add: humanComments_def)
    from commentsSection_of_infix [OF this] show ?thesis by (simp add: commentsSection_part001_def)
  qed
  have 2: "\<exists>a b. commentsSection_final comments = a @ comment_line c @ b" if "c \<in> set comments" for c
    using commentsSection_of_infix [OF that] by (simp add: commentsSection_final_def)
  have 3: "\<exists>a b. prompt_final pr comments diff ctx = a @ comment_line c @ b" if "c \<in> set comments" for c
  proof -
    from 2 [OF that] obtain a b where "commentsSection_final comments = a @ comment_line c @ b" by blast
    then have "prompt_final pr comments diff ctx =
        (summary pr @ diffContent diff @ contextSection pr @ a) @ comment_line c @
        (b @ asanaContext ctx @ ''\<newline>---\<newline>\<newline>'')"
      by (simp add: prompt_final_def)
    then show ?thesis by blast
  qed
  have 4: "commentsSection_final comments =
     (if comments = [] then []
      else ''**Comments:**\<newline>'' @ join ''\<newline>'' (map comment_line comments) @ ''\<newline>\<newline>'')"
    unfolding commentsSection_final_def by (rule commentsSection_of_lines)
  have 5: "commentsSection_part001 actor (filter (\<lambda>c. login (comment_user c) \<noteq> actor) comments) =
     commentsSection_part001 actor comments"
    "commentsSection_part001 actor (filter (\<lambda>c. user_type (comment_user c) \<noteq> ''Bot'') comments) =
     commentsSection_part001 actor comments"
    by (simp_all add: commentsSection_part001_def humanComments_drop_actor humanComments_drop_bots)
  have 6: "prompt_part001 actor pr (filter (\<lambda>c. login (comment_user c) \<noteq> actor) comments) diff ctx =
     prompt_part001 actor pr comments diff ctx"
    "prompt_part001 actor pr (filter (\<lambda>c. user_type (comment_user c) \<noteq> ''Bot'') comments) diff ctx =
     prompt_part001 actor pr comments diff ctx"
    by (simp_all add: prompt_part001_def 5)
  from 0 1 2 3 4 5 6 show ?thesis by blast
qed

theorem comments_section_contents_witness:
  "commentsSection_part001 ''review-bot'' demo_mixed_comments =
     ''**Comments:**\<newline>- **alice:** Please add tests.\<newline>- **carol:** Done.\<newline>\<newline>'' \<and>
   commentsSection_final demo_mixed_comments =
     ''**Comments:**\<newline>- **alice:** Please add tests.\<newline>- **dependabot[bot]:** Bumps lodash.\<newline>- **review-bot:** Looks fine.\<newline>- **carol:** Done.\<newline>\<newline>''"
  using comments_section_contents [of "''review-bot''" demo_mixed_comments]
  by (simp add: demo_mixed_comments_def comment_line_def)

text \<open>
  In fetch\_prs\_final\_asana.js and asana\_ai\_reviewer.js a comment of the acting user is
  part of the comments section: the section differs from the one composed without it.
\<close>

theorem final_variant_keeps_actor_comments:
  "commentsSection_final demo_bot_comment = ''**Comments:**\<newline>- **review-bot:** Looks fine.\<newline>\<newline>'' \<and>
   commentsSection_final (filter (\<lambda>c. login (comment_user c) \<noteq> ''review-bot'') demo_bot_comment) = [] \<and>
   commentsSection_final demo_bot_comment \<noteq>
   commentsSection_final (filter (\<lambda>c. login (comment_user c) \<noteq> ''review-bot'') demo_bot_comment)"
  by (simp add: commentsSection_final_def commentsSection_of_def demo_bot_comment_def comment_line_def)

section \<open>A failed comment write\<close>

lemma fst_io_bind:
  "fst (io_bind m k) = (case snd m of Inl e \<Rightarrow> fst m | Inr x \<Rightarrow> fst m @ fst (k x))"
  by (cases m) (auto simp: io_bind_def split: sum.splits prod.splits)

lemma processPullRequest_part001_write_result:
  "processPullRequest_part001 (sv\<lparr>issues_createComment := f\<rparr>) n ow rp ctx =
   processPullRequest_part001 sv n ow rp ctx"
  by (simp add: processPullRequest_part001_def io_catch_def fst_io_bind Let_def
      split: sum.splits)

lemma processPullRequest_final_write_result:
  "processPullRequest_final (sv\<lparr>issues_createComment := f\<rparr>) n ow rp ctx =
   processPullRequest_final sv n ow rp ctx"
  by (simp add: processPullRequest_final_def io_catch_def fst_io_bind Let_def
      split: sum.splits)

lemma primitives_write_result:
  "getAsanaTaskDetails (sv\<lparr>issues_createComment := f\<rparr>) taskId = getAsanaTaskDetails sv taskId"
  "getAsanaStoryDetails (sv\<lparr>issues_createComment := f\<rparr>) storyId = getAsanaStoryDetails sv storyId"
  "findTagInWorkspace (sv\<lparr>issues_createComment := f\<rparr>) w tagName = findTagInWorkspace sv w tagName"
  "createTagInWorkspace (sv\<lparr>issues_createComment := f\<rparr>) w tagName = createTagInWorkspace sv w tagName"
  "attachTagToTask (sv\<lparr>issues_createComment := f\<rparr>) taskId g = attachTagToTask sv taskId g"
  "redis_sismember (sv\<lparr>issues_createComment := f\<rparr>) name k = redis_sismember sv name k"
  "redis_sadd (sv\<lparr>issues_createComment := f\<rparr>) name k = redis_sadd sv name k"
  by (simp_all add: getAsanaTaskDetails_def getAsanaStoryDetails_def findTagInWorkspace_def
      createTagInWorkspace_def attachTagToTask_def redis_sismember_def redis_sadd_def)

lemma addTagToTask_write_result:
  "addTagToTask (sv\<lparr>issues_createComment := f\<rparr>) taskId tagName = addTagToTask sv taskId tagName"
  unfolding addTagToTask_def primitives_write_result by (rule refl)

lemma processAsanaTask_part001_write_result:
  "processAsanaTask_part001 (sv\<lparr>issues_createComment := f\<rparr>) taskId ctx =
   processAsanaTask_part001 sv taskId ctx"
  unfolding processAsanaTask_part001_def processPullRequest_part001_write_result
    addTagToTask_write_result primitives_write_result
  by (rule refl)

lemma processAsanaTask_final_write_result:
  "processAsanaTask_final (sv\<lparr>issues_createComment := f\<rparr>) taskId ctx =
   processAsanaTask_final sv taskId ctx"
  unfolding processAsanaTask_final_def processPullRequest_final_write_result primitives_write_result
  by (rule refl)

lemma processAsanaStory_final_write_result:
  "processAsanaStory_final (sv\<lparr>issues_createComment := f\<rparr>) storyId =
   processAsanaStory_final sv storyId"
  unfolding processAsanaStory_final_def processAsanaTask_final_write_result primitives_write_result
  by (rule refl)

lemma process_event_final_write_result:
  "process_event_final (sv\<lparr>issues_createComment := f\<rparr>) event = process_event_final sv event"
  unfolding process_event_final_def processAsanaTask_final_write_result
    processAsanaStory_final_write_result primitives_write_result
  by (rule refl)

lemma process_events_final_write_result:
  "process_events_final (sv\<lparr>issues_createComment := f\<rparr>) events = process_events_final sv events"
  by (induction sv events rule: process_events_final.induct)
     (simp_all add: process_event_final_write_result)

lemma webhook_final_write_result:
  "webhook_final (sv\<lparr>issues_createComment := f\<rparr>) req = webhook_final sv req"
  unfolding webhook_final_def process_events_final_write_result by (rule refl)

text \<open>
  Claim C2, as the code has it. \<open>processPullRequest\<close> catches and logs the failure
  of the comment write and returns normally, so nothing after it can tell a failed
  write from a successful one: with any other answer of \<open>issues.createComment\<close> the
  calls and the result of \<open>processPullRequest\<close> and of \<open>processAsanaTask\<close>
  (unnamed/part\_001, which attaches the tag afterwards) are the same, and so are the
  calls, the members of \<open>processedEvents\<close> and the response of the route of
  fetch\_prs\_final\_asana.js (which adds the event key afterwards).
\<close>

theorem write_failure_is_not_seen:
  "processPullRequest_part001 (sv\<lparr>issues_createComment := f\<rparr>) n ow rp ctx =
     processPullRequest_part001 sv n ow rp ctx \<and>
   snd (processPullRequest_part001 sv n ow rp ctx) = Inr () \<and>
   processAsanaTask_part001 (sv\<lparr>issues_createComment := f\<rparr>) taskId ctx =
     processAsanaTask_part001 sv taskId ctx \<and>
   snd (processAsanaTask_final sv taskId ctx) = Inr () \<and>
   webhook_final (sv\<lparr>issues_createComment := f\<rparr>) req store = webhook_final sv req store"
  by (simp add: processPullRequest_part001_write_result processPullRequest_part001_returns
      processAsanaTask_part001_write_result processAsanaTask_final_def
      webhook_final_write_result)

theorem write_failure_is_not_seen_witness:
  "processAsanaTask_part001 demo_write_fails ''t1'' Null =
     processAsanaTask_part001 demo_services ''t1'' Null \<and>
   webhook_final demo_write_fails demo_task_added {} = webhook_final demo_services demo_task_added {}"
  unfolding demo_write_fails_def
  using write_failure_is_not_seen [where sv = demo_services and taskId = "''t1''" and ctx = Null
      and req = demo_task_added and store = "{}"]
  by simp

lemma demo_task_resolves:
  "extractPrUrlFromTask demo_task = Str ''https://github.com/acme/widgets/pull/42''"
  "parseGithubUrl ''https://github.com/acme/widgets/pull/42'' =
     \<lparr>owner = Str ''acme'', repo = Str ''widgets'', prNumber = Str ''42''\<rparr>"
  using scenario_url scenario_parse
  by (simp_all add: extractPrUrlFromTask_def demo_task_def parseGithubUrl_def)

lemma demo_task_fields:
  "task_tags demo_task = []" "task_workspace demo_task = ''w1''"
  by (simp_all add: demo_task_def)

lemma demo_part001_trace:
  "fst (processAsanaTask_part001 demo_write_fails ''t1'' Null) =
     [GetTask ''t1'', GetAuthenticated, PullsGet ''acme'' ''widgets'' ''42'',
      ListComments ''acme'' ''widgets'' ''42'', GetDiff ''acme'' ''widgets'' ''42'',
      ChatCompletion ''o1-preview''
        (finalPrompt_part001 (prompt_part001 ''review-bot'' demo_pull [] ''+ widget'' Null)),
      CreateComment ''acme'' ''widgets'' ''42'' ''LGTM'',
      GetTask ''t1'', ListTags ''w1'', CreateTag ''w1'' ''AsanaAI Processed'', AttachTag ''t1'' ''g1'']"
  by (simp add: processAsanaTask_part001_def getAsanaTaskDetails_def demo_write_fails_def
      demo_services_def demo_task_resolves processPullRequest_part001_def Let_def
      addTagToTask_def findTagInWorkspace_def createTagInWorkspace_def attachTagToTask_def
      processedTag_def demo_task_fields)

text \<open>
  With a comment write that fails, the tag is attached to the task all the same
  (unnamed/part\_001), and the event key is added to \<open>processedEvents\<close> all the same
  (fetch\_prs\_final\_asana.js).
\<close>

theorem witness_recorded_after_failed_write:
  "issues_createComment demo_write_fails ''acme'' ''widgets'' ''42'' ''LGTM'' = Inl (Error ''network error'') \<and>
   CreateComment ''acme'' ''widgets'' ''42'' ''LGTM'' \<in> set (fst (processAsanaTask_part001 demo_write_fails ''t1'' Null)) \<and>
   AttachTag ''t1'' ''g1'' \<in> set (fst (processAsanaTask_part001 demo_write_fails ''t1'' Null)) \<and>
   issues_createComment demo_write_fails ''acme'' ''widgets'' ''42''
     (botIntroduction @ ''\<newline>\<newline>'' @ ''LGTM'') = Inl (Error ''network error'') \<and>
   CreateComment ''acme'' ''widgets'' ''42'' (botIntroduction @ ''\<newline>\<newline>'' @ ''LGTM'')
     \<in> set (fst (webhook_final demo_write_fails demo_task_added {})) \<and>
   fst (snd (webhook_final demo_write_fails demo_task_added {})) = {''t1''}"
proof -
  have w: "webhook_final demo_write_fails demo_task_added {} =
     ([SIsMember ''processedEvents'' ''t1'', GetTask ''t1'', PullsGet ''acme'' ''widgets'' ''42'',
       ListComments ''acme'' ''widgets'' ''42'', GetDiff ''acme'' ''widgets'' ''42'',
       ChatCompletion ''o1-preview'' (finalPrompt_final Null (prompt_final demo_pull [] ''+ widget'' Null)),
       CreateComment ''acme'' ''widgets'' ''42'' (botIntroduction @ ''\<newline>\<newline>'' @ ''LGTM''),
       SAdd ''processedEvents'' ''t1''],
      {''t1''}, Inr (send 200 ''Events processed.''))"
    by (simp add: webhook_final_def demo_task_added_def process_event_final_def sio_bind_def
        sio_lift_def sio_return_def redis_sismember_def redis_sadd_def
        processAsanaTask_final_def getAsanaTaskDetails_def demo_write_fails_def
        demo_services_def demo_task_resolves processPullRequest_final_def Let_def)
  show ?thesis
    unfolding w demo_part001_trace by (simp add: demo_write_fails_def)
qed

section \<open>The ledger under two deliveries\<close>

lemma delivery_step_finished:
  "phase d = Finished \<Longrightarrow> delivery_step sv event d sh = (d, sh)"
  by (simp add: delivery_step_def)

lemma delivery_step_seen:
  assumes "redis_sismember_error sv ''processedEvents'' (resource_gid event) = None"
    and "resource_gid event \<in> members sh"
  shows "delivery_step sv event arrived sh =
           (\<lparr>phase = Finished, admitted = False\<rparr>,
            \<lparr>members = members sh,
             calls = calls sh @ [SIsMember ''processedEvents'' (resource_gid event)]\<rparr>)"
  using assms by (simp add: delivery_step_def arrived_def redis_sismember_def)

lemma second_after_first:
  assumes "redis_sismember_error sv ''processedEvents'' (resource_gid event) = None"
    and "resource_gid event \<in> members sh"
    and "phase d1 = Finished"
    and "d2 = arrived \<or> d2 = \<lparr>phase = Finished, admitted = False\<rparr>"
  shows "fst (run_schedule sv event rest (d1, d2, sh)) = d1 \<and>
         fst (snd (run_schedule sv event rest (d1, d2, sh))) =
           (if True \<in> set rest then \<lparr>phase = Finished, admitted = False\<rparr> else d2) \<and>
         resource_gid event \<in> members (snd (snd (run_schedule sv event rest (d1, d2, sh))))"
  using assms(2,4)
proof (induction rest arbitrary: d2 sh)
  case Nil
  then show ?case by simp
next
  case (Cons b bs)
  show ?case
  proof (cases b)
    case False
    then have "run_schedule sv event (b # bs) (d1, d2, sh) = run_schedule sv event bs (d1, d2, sh)"
      using assms(3) by (simp add: delivery_step_finished)
    with Cons.IH [OF Cons.prems] False show ?thesis by simp
  next
    case True
    define d2' where "d2' = \<lparr>phase = Finished, admitted = False\<rparr>"
    from Cons.prems(2) show ?thesis
    proof
      assume a: "d2 = arrived"
      define sh' where "sh' = \<lparr>members = members sh,
             calls = calls sh @ [SIsMember ''processedEvents'' (resource_gid event)]\<rparr>"
      have step: "delivery_step sv event d2 sh = (d2', sh')"
        unfolding a d2'_def sh'_def using assms(1) Cons.prems(1) by (rule delivery_step_seen)
      have m: "resource_gid event \<in> members sh'" using Cons.prems(1) by (simp add: sh'_def)
      have r: "run_schedule sv event (b # bs) (d1, d2, sh) = run_schedule sv event bs (d1, d2', sh')"
        using True step by simp
      have "d2' = arrived \<or> d2' = \<lparr>phase = Finished, admitted = False\<rparr>" by (simp add: d2'_def)
      from Cons.IH [OF m this] r True show ?thesis by (simp add: d2'_def)
    next
      assume a: "d2 = \<lparr>phase = Finished, admitted = False\<rparr>"
      then have "delivery_step sv event d2 sh = (d2, sh)" by (simp add: delivery_step_finished)
      then have "run_schedule sv event (b # bs) (d1, d2, sh) = run_schedule sv event bs (d1, d2, sh)"
        using True by simp
      with Cons.IH [OF Cons.prems] True a show ?thesis by simp
    qed
  qed
qed

lemma first_runs_alone:
  assumes "handled event"
    and "redis_sismember_error sv ''processedEvents'' (resource_gid event) = None"
    and "redis_sadd_error sv ''processedEvents'' (resource_gid event) = None"
    and "resource_gid event \<notin> store"
  shows "two_deliveries sv event [False, False, False] store =
           (\<lparr>phase = Finished, admitted = True\<rparr>, arrived,
            \<lparr>members = fst (snd (process_event_final sv event store)),
             calls = fst (process_event_final sv event store)\<rparr>) \<and>
         fst (snd (process_event_final sv event store)) = insert (resource_gid event) store \<and>
         snd (snd (process_event_final sv event store)) = Inr ()"
  using assms
  by (auto simp: two_deliveries_def handled_def delivery_step_def arrived_def redis_sismember_def
      redis_sadd_def process_event_final_def sio_bind_def sio_lift_def sio_return_def Let_def
      processAsanaTask_final_def processAsanaStory_final_def)

lemma run_schedule_append:
  "run_schedule sv event (xs @ ys) c = run_schedule sv event ys (run_schedule sv event xs c)"
proof (induction xs arbitrary: c)
  case Nil
  show ?case by simp
next
  case (Cons b bs)
  obtain d1 d2 sh where c: "c = (d1, d2, sh)" by (cases c) auto
  show ?case unfolding c using Cons.IH by (simp split: prod.splits)
qed

lemma second_delivery_is_skipped:
  assumes "redis_sismember_error sv ''processedEvents'' (resource_gid event) = None"
  shows "process_event_final sv event (insert (resource_gid event) store) =
           ([SIsMember ''processedEvents'' (resource_gid event)],
            insert (resource_gid event) store, Inr ())"
  using assms
  by (simp add: process_event_final_def Let_def sio_bind_def redis_sismember_def sio_return_def)

text \<open>
  Claim C1, as the code has it. The route of fetch\_prs\_final\_asana.js admits an
  event by a membership read (\<open>sismember\<close>) before the processing and records it by a
  separate write (\<open>sadd\<close>) after the processing. For an event the route processes,
  with a key not yet in the set and Redis commands that do not fail: when the first
  delivery has made its three steps before the second makes its first, whatever the
  schedule afterwards, the first delivery is admitted, the second is not, and the key
  is in the set; in the terms of the route itself, processing the event adds the key,
  and processing it again on the resulting set is the membership read and nothing
  else.
\<close>

theorem admit_is_read_then_write:
  assumes "handled event"
    and "redis_sismember_error sv ''processedEvents'' (resource_gid event) = None"
    and "redis_sadd_error sv ''processedEvents'' (resource_gid event) = None"
    and "resource_gid event \<notin> store"
  shows "admitted (fst (two_deliveries sv event ([False, False, False] @ rest) store)) \<and>
         \<not> admitted (fst (snd (two_deliveries sv event ([False, False, False] @ rest) store))) \<and>
         resource_gid event \<in>
           members (snd (snd (two_deliveries sv event ([False, False, False] @ rest) store))) \<and>
         fst (snd (process_event_final sv event store)) = insert (resource_gid event) store \<and>
         process_event_final sv event (fst (snd (process_event_final sv event store))) =
           ([SIsMember ''processedEvents'' (resource_gid event)],
            insert (resource_gid event) store, Inr ())"
proof -
  define sh where "sh = \<lparr>members = fst (snd (process_event_final sv event store)),
                          calls = fst (process_event_final sv event store)\<rparr>"
  define d1 where "d1 = \<lparr>phase = Finished, admitted = True\<rparr>"
  note f = first_runs_alone [OF assms]
  have a: "two_deliveries sv event ([False, False, False] @ rest) store =
           run_schedule sv event rest (d1, arrived, sh)"
    using f unfolding two_deliveries_def run_schedule_append sh_def d1_def by simp
  have m: "resource_gid event \<in> members sh" using f by (simp add: sh_def)
  have p: "phase d1 = Finished" by (simp add: d1_def)
  have "arrived = arrived \<or> arrived = \<lparr>phase = Finished, admitted = False\<rparr>" by simp
  note s = second_after_first [OF assms(2) m p this, of rest]
  have 1: "admitted (fst (two_deliveries sv event ([False, False, False] @ rest) store))"
    unfolding a using s by (simp add: d1_def)
  have 2: "\<not> admitted (fst (snd (two_deliveries sv event ([False, False, False] @ rest) store)))"
    unfolding a using s by (simp add: arrived_def)
  have 3: "resource_gid event \<in>
           members (snd (snd (two_deliveries sv event ([False, False, False] @ rest) store)))"
    unfolding a using s by simp
  from 1 2 3 f second_delivery_is_skipped [OF assms(2), of store] show ?thesis by simp
qed

lemma demo_event_handled: "handled demo_event"
  by (simp add: handled_def demo_event_def)

theorem admit_is_read_then_write_witness:
  "handled demo_event \<and> resource_gid demo_event \<notin> ({}::string set) \<and>
   admitted (fst (two_deliveries demo_services demo_event ([False, False, False] @ [True, True, True]) {})) \<and>
   \<not> admitted (fst (snd (two_deliveries demo_services demo_event
                            ([False, False, False] @ [True, True, True]) {})))"
proof -
  have a: "redis_sismember_error demo_services ''processedEvents'' (resource_gid demo_event) = None"
    by (simp add: demo_services_def)
  have b: "redis_sadd_error demo_services ''processedEvents'' (resource_gid demo_event) = None"
    by (simp add: demo_services_def)
  have c: "resource_gid demo_event \<notin> ({}::string set)" by simp
  from admit_is_read_then_write [OF demo_event_handled a b c, of "[True, True, True]"]
    demo_event_handled c
  show ?thesis by blast
qed

lemma demo_final_task:
  "processAsanaTask_final demo_services ''t1'' Null =
     ([GetTask ''t1'', PullsGet ''acme'' ''widgets'' ''42'',
       ListComments ''acme'' ''widgets'' ''42'', GetDiff ''acme'' ''widgets'' ''42'',
       ChatCompletion ''o1-preview'' (finalPrompt_final Null (prompt_final demo_pull [] ''+ widget'' Null)),
       CreateComment ''acme'' ''widgets'' ''42'' (botIntroduction @ ''\<newline>\<newline>'' @ ''LGTM'')],
      Inr ())"
  by (simp add: processAsanaTask_final_def getAsanaTaskDetails_def
      demo_services_def demo_task_resolves processPullRequest_final_def Let_def)

lemma demo_redis_answers:
  "redis_sismember_error demo_services name k = None"
  "redis_sadd_error demo_services name k = None"
  by (simp_all add: demo_services_def)

text \<open>
  Two deliveries of the same event whose membership reads both come before either
  write are both admitted: the reasoning engine is called twice and two comments are
  written.
\<close>

theorem both_deliveries_admitted:
  "admitted (fst (two_deliveries demo_services demo_event [False, True, False, True, False, True] {})) \<and>
   admitted (fst (snd (two_deliveries demo_services demo_event [False, True, False, True, False, True] {}))) \<and>
   length (filter is_reasoning_call
     (calls (snd (snd (two_deliveries demo_services demo_event [False, True, False, True, False, True] {}))))) = 2 \<and>
   length (filter is_comment_write
     (calls (snd (snd (two_deliveries demo_services demo_event [False, True, False, True, False, True] {}))))) = 2"
  by (simp add: two_deliveries_def delivery_step_def arrived_def redis_sismember_def redis_sadd_def
      demo_event_def demo_final_task demo_redis_answers Let_def)

section \<open>The GitHub webhook\<close>

lemma verifySignature_rejects:
  "x_hub_signature_256 req \<noteq> Str (''sha256='' @ hmac_hex secret buf) \<Longrightarrow>
     verifySignature hmac_hex secret req buf = Inl (Error ''Invalid signature'')"
  by (simp add: verifySignature_def)

lemma verifying_parser_rejects:
  assumes "x_hub_signature_256 req \<noteq> Str (''sha256='' @ hmac_hex secret (raw_body req))"
    and "has_json_body req" and "\<not> body_read req"
  shows "express_json (Some (verifySignature hmac_hex secret)) parse req = Refused 403"
  using assms by (simp add: express_json_def verifySignature_def)

lemma signature_check_is_bypassed:
  assumes "has_json_body req" and "\<not> body_read req" and "parse (raw_body req) = Inr payload"
  shows "app_part000 hmac_hex secret parse ppr req =
           Routed (webhook_github ppr (x_github_event req) (Some payload))"
  using assms by (simp add: app_part000_def express_json_def)

lemma forged_request_answered:
  "app_part000 demo_hmac ''secret'' demo_parse processPullRequest_part000 demo_forged =
     Routed ([], Inr (send 200 ''Processed pull request.''))"
  by (simp add: app_part000_def express_json_def demo_forged_def demo_parse_def demo_payload_def
      webhook_github_def configured_actor_def processPullRequest_part000_def io_throw_def
      io_return_def)

text \<open>
  Claim C5. \<open>verifySignature\<close> throws when the header is not \<open>sha256=\<close> followed by
  the digest, and a body parser that calls it refuses such a request with status 403
  (the two lemmas above). The application, however, registers the parser without
  \<open>verify\<close> first: that parser reads the body, the verifying parser finds the body
  read and passes the request on, and \<open>verifySignature\<close> is never called. A request
  with a JSON body reaches the route whatever its signature: the forged delivery is
  routed, the pipeline runs and the response is "Processed pull request.".
\<close>

theorem forged_request_is_processed:
  "x_hub_signature_256 demo_forged \<noteq> Str (''sha256='' @ demo_hmac ''secret'' (raw_body demo_forged)) \<and>
   verifySignature demo_hmac ''secret'' demo_forged (raw_body demo_forged) = Inl (Error ''Invalid signature'') \<and>
   app_part000 demo_hmac ''secret'' demo_parse demo_pipeline demo_forged =
     Routed (io_bind (demo_pipeline 42 ''acme'' ''widgets'') (\<lambda>_. io_return (send 200 ''Processed pull request.'')))"
  by (simp add: app_part000_def express_json_def demo_forged_def demo_hmac_def demo_parse_def
      demo_payload_def webhook_github_def configured_actor_def verifySignature_def)

lemma reviewer_gate:
  assumes "event = Str ''pull_request''"
    and "payload_action p = ''review_requested''"
    and "pull_request_number p = Some prNum"
    and "repository_owner_login p = Some ow"
    and "requested_reviewer_login p = Some requestedReviewer"
  shows "(requestedReviewer = configured_actor \<longrightarrow>
            webhook_github processPullRequest event (Some p) =
              io_bind (processPullRequest prNum ow (repository_name p))
                (\<lambda>_. io_return (send 200 ''Processed pull request.''))) \<and>
         (requestedReviewer \<noteq> configured_actor \<longrightarrow>
            webhook_github processPullRequest event (Some p) =
              ([], Inr (send 200 ''Not the correct reviewer.'')))"
  using assms by (simp add: webhook_github_def io_return_def)

lemma reviewer_gate_no_reviewer:
  assumes "event = Str ''pull_request''"
    and "payload_action p = ''review_requested''"
    and "requested_reviewer_login p = None"
  shows "webhook_github processPullRequest event (Some p) = ([], Inl (Error ''TypeError''))"
  using assms by (simp add: webhook_github_def io_throw_def split: option.splits)

text \<open>
  Claim C6. Where the payload of a review request names a reviewer, the route is the
  gate the claim describes (lemma \<open>reviewer_gate\<close>): it runs the pipeline on the
  pull request of the payload exactly when the reviewer's login equals the actor's
  identity, which the code has as the literal \<open>haghdaee\<close>, and otherwise makes no
  call and answers "Not the correct reviewer.". A review request made to a team
  names no reviewer. For it line 42 reads \<open>login\<close> of \<open>undefined\<close> and throws,
  outside every \<open>try\<close>: the event is not rejected, the handler's promise is, and
  nothing is answered, whatever the pipeline.
\<close>

theorem team_review_request_is_not_rejected:
  "payload_action demo_team_payload = ''review_requested'' \<and>
   pull_request_number demo_team_payload = Some 42 \<and>
   repository_owner_login demo_team_payload = Some ''acme'' \<and>
   requested_reviewer_login demo_team_payload = None \<and>
   webhook_github processPullRequest_part000 (Str ''pull_request'') (Some demo_team_payload) =
     ([], Inl (Error ''TypeError'')) \<and>
   webhook_github demo_pipeline (Str ''pull_request'') (Some demo_team_payload) =
     ([], Inl (Error ''TypeError'')) \<and>
   webhook_github processPullRequest_part000 (Str ''pull_request'')
       (Some (demo_payload\<lparr>requested_reviewer_login := Some ''bob''\<rparr>)) =
     ([], Inr (send 200 ''Not the correct reviewer.''))"
  by (simp add: webhook_github_def demo_team_payload_def demo_payload_def io_throw_def
      io_return_def configured_actor_def)

section \<open>The response of the routes\<close>















end
